theory Spec2Isabelle
  imports Complex_Main "HOL-Library.Word" "HOL-Library.Extended_Nat"
begin

unbundle bit_operations_syntax

section \<open>The MMF parser (class MMFParser)\<close>

text \<open>
  The repository holds two revisions of the class \<open>MMFParser\<close>: the one in
  \<^verbatim>\<open>src/lib/mmf-parser.ts\<close>, the module that the user interface imports, and the
  one in the second half of \<^verbatim>\<open>src/unnamed/part_001\<close> (lines 260-610), which adds
  the five-byte track sub-header, the tick scale and the bounds guards of the event
  loop. The byte readers, \<open>readString\<close>, \<open>verifyHeader\<close>, \<open>readChunkHeader\<close>,
  \<open>parseCNTI\<close> and \<open>readVariableLength\<close> are the same text in both. The definitions
  without suffix embed the revision of \<^verbatim>\<open>part_001\<close>; the definitions with the
  suffix \<open>_lib\<close> embed what \<^verbatim>\<open>src/lib/mmf-parser.ts\<close> does differently.

  Conventions of the embedding.
  \<^item> The buffer \<open>this.data\<close> (a \<open>Uint8Array\<close>) is a list of 8-bit words; the cursor
    \<open>this.position\<close> is passed in and returned.
  \<^item> An indexed read outside the buffer is \<open>undefined\<close> in JavaScript and raises nothing:
    it is \<open>None\<close> here. A comparison with \<open>undefined\<close> is false, and a bit operation
    takes it as 0.
  \<^item> JavaScript numbers that hold times are modelled as exact rationals: the rounding of
    IEEE doubles is not modelled.
  \<^item> A JavaScript string is the list of its UTF-16 code units.
\<close>

type_synonym byte = "8 word"
type_synonym jsstring = "nat list"

definition js :: "string \<Rightarrow> jsstring" where
  "js s = map of_char s"

subsection \<open>Data model (the exported interfaces)\<close>

text \<open>The constant \<open>DEFAULT_NOTE_DURATION_MS\<close>.\<close>

definition DEFAULT_NOTE_DURATION_MS :: rat where
  "DEFAULT_NOTE_DURATION_MS = 250"

text \<open>Interface \<open>MMFNote\<close>; its field \<open>note\<close> is \<open>note_no\<close> here.\<close>

record MMFNote =
  time :: rat
  note_no :: nat
  duration :: rat
  velocity :: nat
  channel :: nat

record MMFMetadata =
  title :: "jsstring option"
  composer :: "jsstring option"
  arranger :: "jsstring option"
  copyright :: "jsstring option"

text \<open>
  Interface \<open>MMFData\<close>; its fields \<open>notes\<close> and \<open>duration\<close> are \<open>note_list\<close> and
  \<open>total_duration\<close> here. The tempo is
  an extended natural number: \<open>Math.round(60000000 / 0)\<close> is \<open>Infinity\<close>.
\<close>

record MMFData =
  metadata :: MMFMetadata
  note_list :: "MMFNote list"
  total_duration :: rat
  tempo :: enat

text \<open>Interface \<open>ChunkInfo\<close> (fields \<open>type\<close>, \<open>size\<close>, \<open>offset\<close>).\<close>

record ChunkInfo =
  chunk_type :: jsstring
  chunk_size :: nat
  chunk_offset :: nat

text \<open>
  What \<open>parse\<close> can throw: its own \<open>Error\<close> for a wrong signature, and the engine's
  \<open>RangeError\<close> for a call with too many arguments.
\<close>

datatype error = InvalidFormat | RangeError

subsection \<open>Byte readers\<close>

text \<open>\<open>this.data[i]\<close>: \<open>undefined\<close> outside the buffer.\<close>

definition byteAt :: "byte list \<Rightarrow> nat \<Rightarrow> nat option" where
  "byteAt data i = (if i < length data then Some (unat (data ! i)) else None)"

text \<open>The value a bit operation sees: \<open>undefined\<close> is 0.\<close>

definition toInt :: "nat option \<Rightarrow> nat" where
  "toInt v = (case v of None \<Rightarrow> 0 | Some b \<Rightarrow> b)"

definition readUInt8 :: "byte list \<Rightarrow> nat \<Rightarrow> nat option \<times> nat" where
  "readUInt8 data pos = (byteAt data pos, pos + 1)"

text \<open>
  \<open>readUInt24BE\<close>: the three shifted bytes are disjoint and stay below \<open>2 ^ 24\<close>, so
  the 32-bit signed result of JavaScript's \<open><<\<close> and \<open>|\<close> is this natural number.
\<close>

definition readUInt24BE :: "byte list \<Rightarrow> nat \<Rightarrow> nat \<times> nat" where
  "readUInt24BE data pos =
     (push_bit 16 (toInt (byteAt data pos)) OR push_bit 8 (toInt (byteAt data (pos + 1)))
        OR toInt (byteAt data (pos + 2)),
      pos + 3)"

text \<open>
  \<open>readUInt32BE\<close>: \<open>>>> 0\<close> reads the 32-bit result as unsigned, which is this natural
  number below \<open>2 ^ 32\<close>.
\<close>

definition readUInt32BE :: "byte list \<Rightarrow> nat \<Rightarrow> nat \<times> nat" where
  "readUInt32BE data pos =
     (push_bit 24 (toInt (byteAt data pos)) OR push_bit 16 (toInt (byteAt data (pos + 1)))
        OR push_bit 8 (toInt (byteAt data (pos + 2))) OR toInt (byteAt data (pos + 3)),
      pos + 4)"

subsection \<open>Strings\<close>

text \<open>
  The white space that \<open>String.prototype.trim\<close> removes (ECMAScript WhiteSpace and
  LineTerminator code units).
\<close>

definition isWhiteSpace :: "nat \<Rightarrow> bool" where
  "isWhiteSpace c \<longleftrightarrow>
     c \<in> {9, 10, 11, 12, 13, 32, 160, 5760, 8232, 8233, 8239, 8287, 12288, 65279}
     \<or> (8192 \<le> c \<and> c \<le> 8202)"

definition trim :: "jsstring \<Rightarrow> jsstring" where
  "trim s = rev (dropWhile isWhiteSpace (rev (dropWhile isWhiteSpace s)))"

text \<open>\<open>.replace(/\0/g, '').trim()\<close>\<close>

definition stripText :: "jsstring \<Rightarrow> jsstring" where
  "stripText s = trim (filter (\<lambda>c. c \<noteq> 0) s)"

text \<open>
  The platform's \<open>TextDecoder('shift-jis')\<close> is a parameter: \<open>Some dec\<close> is its
  \<open>decode\<close>; \<open>None\<close> is a platform where constructing it throws, and \<open>readString\<close>
  falls back to \<open>String.fromCharCode(...bytes)\<close>.
\<close>

type_synonym decoder = "(byte list \<Rightarrow> jsstring) option"

definition decodeBytes :: "decoder \<Rightarrow> byte list \<Rightarrow> jsstring" where
  "decodeBytes dec bytes = (case dec of Some d \<Rightarrow> d bytes | None \<Rightarrow> map unat bytes)"

text \<open>\<open>this.data.slice(position, position + length)\<close> is cut at the end of the buffer.\<close>

definition readString :: "decoder \<Rightarrow> byte list \<Rightarrow> nat \<Rightarrow> nat \<Rightarrow> jsstring \<times> nat" where
  "readString dec data pos len =
     (stripText (decodeBytes dec (take len (drop pos data))), pos + len)"

subsection \<open>Header and chunk header\<close>

definition verifyHeader :: "decoder \<Rightarrow> byte list \<Rightarrow> nat \<Rightarrow> bool \<times> nat" where
  "verifyHeader dec data pos =
     (let (header, p) = readString dec data pos 4 in (header = js ''MMMD'', p))"

definition readChunkHeader :: "decoder \<Rightarrow> byte list \<Rightarrow> nat \<Rightarrow> (ChunkInfo \<times> nat) option" where
  "readChunkHeader dec data pos =
     (if int pos \<ge> int (length data) - 8 then None
      else
        let (ty, p1) = readString dec data pos 4;
            (sz, p2) = readUInt32BE data p1
        in Some (\<lparr>chunk_type = ty, chunk_size = sz, chunk_offset = p2\<rparr>, p2))"

subsection \<open>\<open>parseCNTI\<close>\<close>

text \<open>The \<open>switch (contentType)\<close>: an \<open>undefined\<close> content type matches no case.\<close>

definition storeContent :: "nat option \<Rightarrow> jsstring \<Rightarrow> MMFMetadata \<Rightarrow> MMFMetadata" where
  "storeContent contentType content md =
     (if contentType = Some 0 then md\<lparr>title := Some content\<rparr>
      else if contentType = Some 1 then md\<lparr>composer := Some content\<rparr>
      else if contentType = Some 2 then md\<lparr>arranger := Some content\<rparr>
      else if contentType = Some 3 then md\<lparr>copyright := Some content\<rparr>
      else md)"

text \<open>
  The loop of \<open>parseCNTI\<close>. When the size byte is \<open>undefined\<close> (the chunk's declared end
  lies beyond the buffer), \<open>contentSize === 0\<close> is false and
  \<open>position + contentSize > endPos\<close> compares \<open>NaN\<close>, false as well: there is no
  \<open>break\<close>; \<open>readString(undefined)\<close> slices no byte and makes the position \<open>NaN\<close>, the
  \<open>switch\<close> runs on the empty text, and the loop condition then fails.
\<close>

function cntiLoop :: "decoder \<Rightarrow> byte list \<Rightarrow> nat \<Rightarrow> nat \<Rightarrow> MMFMetadata \<Rightarrow> MMFMetadata" where
  "cntiLoop dec data endPos pos md =
     (if int pos < int endPos - 2 then
        let (contentType, p1) = readUInt8 data pos;
            (contentSize, p2) = readUInt8 data p1
        in case contentSize of
             None \<Rightarrow> storeContent contentType (stripText (decodeBytes dec [])) md
           | Some sz \<Rightarrow>
               if sz = 0 \<or> p2 + sz > endPos then md
               else
                 let (content, p3) = readString dec data p2 sz
                 in cntiLoop dec data endPos p3 (storeContent contentType content md)
      else md)"
  by pat_completeness auto
termination
  by (relation "measure (\<lambda>(dec, data, endPos, pos, md). endPos - pos)")
     (auto simp: readUInt8_def readString_def)

declare cntiLoop.simps [simp del]

definition emptyMetadata :: MMFMetadata where
  "emptyMetadata = \<lparr>title = None, composer = None, arranger = None, copyright = None\<rparr>"

definition parseCNTI :: "decoder \<Rightarrow> byte list \<Rightarrow> nat \<Rightarrow> ChunkInfo \<Rightarrow> MMFMetadata \<times> nat" where
  "parseCNTI dec data pos chunk =
     (let endPos = chunk_offset chunk + chunk_size chunk
      in (cntiLoop dec data endPos pos emptyMetadata, endPos))"

subsection \<open>\<open>readVariableLength\<close>\<close>

text \<open>
  The \<open>do ... while\<close> loop of \<open>readVariableLength\<close>. The running value is a 32-bit
  integer, since \<open>(value << 7) | (byte & 0x7F)\<close> wraps to 32 bits and is read as signed.
  An \<open>undefined\<close> byte has no continuation bit, so the loop ends at the end of the buffer.
\<close>

function vlqLoop :: "byte list \<Rightarrow> nat \<Rightarrow> 32 word \<Rightarrow> int \<times> nat" where
  "vlqLoop data pos v =
     (let (b, p) = readUInt8 data pos;
          v' = push_bit 7 v OR word_of_nat (toInt b AND 0x7F)
      in if toInt b AND 0x80 \<noteq> 0 then vlqLoop data p v' else (sint v', p))"
  by pat_completeness auto
termination
  by (relation "measure (\<lambda>(data, pos, v). length data - pos)")
     (auto simp: readUInt8_def byteAt_def toInt_def split: if_splits)

declare vlqLoop.simps [simp del]

text \<open>
  \<open>readVariableLength(firstByte)\<close>. Its only call passes the status byte just read, so
  the default \<open>firstByte ?? this.readUInt8()\<close> never runs and \<open>firstByte\<close> is a number.
\<close>

definition readVariableLength :: "byte list \<Rightarrow> nat \<Rightarrow> nat \<Rightarrow> int \<times> nat" where
  "readVariableLength data pos firstByte =
     (if firstByte AND 0x80 \<noteq> 0 then vlqLoop data pos (word_of_nat (firstByte AND 0x7F))
      else (int firstByte, pos))"

subsection \<open>\<open>parseMTR\<close> (revision of part_001, lines 415-548)\<close>

text \<open>\<open>Math.round\<close> rounds to the nearest integer, a half towards plus infinity.\<close>

definition math_round :: "rat \<Rightarrow> int" where
  "math_round x = \<lfloor>x + 1 / 2\<rfloor>"

text \<open>
  \<open>Math.round(60000000 / microsecondsPerBeat)\<close>: a division by 0 is \<open>Infinity\<close> in
  JavaScript. The value is never negative.
\<close>

definition tempoOf :: "nat \<Rightarrow> enat" where
  "tempoOf microsecondsPerBeat =
     (if microsecondsPerBeat = 0 then \<infinity>
      else enat (nat (math_round (60000000 / rat_of_nat microsecondsPerBeat))))"

text \<open>
  \<open>timeBaseD > 0 ? msPerQuarterNote / timeBaseD : 1\<close>, where an \<open>undefined\<close> time base
  compares false.
\<close>

definition tickDurationOf :: "nat option \<Rightarrow> rat" where
  "tickDurationOf timeBaseD =
     (case timeBaseD of
        None \<Rightarrow> 1
      | Some d \<Rightarrow> if d > 0 then 500 / rat_of_nat d else 1)"

text \<open>The variables of the event loop: the cursor and the locals of \<open>parseMTR\<close>.\<close>

record MTRState =
  position :: nat
  currentTime :: rat
  track_notes :: "MMFNote list"
  track_tempo :: "enat option"

text \<open>
  One pass through the body of \<open>while (this.position < endPos - 1)\<close>. The result is
  \<open>(True, s')\<close> when the pass ends in \<open>continue\<close> or falls through the last \<open>if\<close>,
  and \<open>(False, s')\<close> when it ends in \<open>break\<close>. In a note-on, the velocity is read
  one byte after the pitch, so it is \<open>undefined\<close> whenever the pitch is; \<open>velocity > 0\<close>
  is then false.
\<close>

definition mtrBody :: "byte list \<Rightarrow> nat \<Rightarrow> rat \<Rightarrow> MTRState \<Rightarrow> bool \<times> MTRState" where
  "mtrBody data endPos tickDuration s =
     (let (status, p) = readUInt8 data (position s) in
      case status of
        None \<Rightarrow> if p \<ge> endPos then (False, s\<lparr>position := p\<rparr>) else (True, s\<lparr>position := p\<rparr>)
      | Some st \<Rightarrow>
          if 0x80 \<le> st \<and> st \<le> 0x8F then
            (if p + 2 > endPos then (False, s\<lparr>position := p\<rparr>)
             else
               let (note, p1) = readUInt8 data p;
                   (vel, p2) = readUInt8 data p1
               in (True, s\<lparr>position := p2\<rparr>))
          else if 0x90 \<le> st \<and> st \<le> 0x9F then
            (if p + 2 > endPos then (False, s\<lparr>position := p\<rparr>)
             else
               let (note, p1) = readUInt8 data p;
                   (vel, p2) = readUInt8 data p1
               in case note of
                    None \<Rightarrow> (True, s\<lparr>position := p2\<rparr>)
                  | Some n \<Rightarrow>
                      (case vel of
                         None \<Rightarrow> (True, s\<lparr>position := p2\<rparr>)
                       | Some v \<Rightarrow>
                           if v > 0 then
                             (True, s\<lparr>position := p2,
                                      track_notes := track_notes s @
                                        [\<lparr>time = currentTime s, note_no = n,
                                          duration = DEFAULT_NOTE_DURATION_MS,
                                          velocity = v, channel = st AND 0x0F\<rparr>]\<rparr>)
                           else (True, s\<lparr>position := p2\<rparr>)))
          else if st = 0xFF then
            (if p + 2 > endPos then (False, s\<lparr>position := p\<rparr>)
             else
               let (metaType, p1) = readUInt8 data p;
                   (len, p2) = readUInt8 data p1
               in if metaType = Some 0x51 \<and> len = Some 3 \<and> p2 + 3 \<le> endPos then
                    let (microsecondsPerBeat, p3) = readUInt24BE data p2
                    in (True, s\<lparr>position := p3, track_tempo := Some (tempoOf microsecondsPerBeat)\<rparr>)
                  else
                    (case len of
                       None \<Rightarrow> (False, s\<lparr>position := p2\<rparr>)
                     | Some l \<Rightarrow>
                         if p2 + l \<le> endPos then (True, s\<lparr>position := p2 + l\<rparr>)
                         else (False, s\<lparr>position := p2\<rparr>)))
          else if st < 0x80 then
            (let (deltaTime, p1) = readVariableLength data p st
             in (True, s\<lparr>position := p1,
                        currentTime := currentTime s + of_int deltaTime * tickDuration\<rparr>))
          else if 0xB0 \<le> st \<and> st \<le> 0xEF then
            (let dataBytes = (if 0xC0 \<le> st \<and> st \<le> 0xDF then 1 else 2)
             in if p + dataBytes \<le> endPos then (True, s\<lparr>position := p + dataBytes\<rparr>)
                else (False, s\<lparr>position := p\<rparr>))
          else if p \<ge> endPos then (False, s\<lparr>position := p\<rparr>)
          else (True, s\<lparr>position := p\<rparr>))"

text \<open>Every pass of the body moves the cursor forward, which is why the loop ends.\<close>

lemma vlqLoop_position: "pos < snd (vlqLoop data pos v)"
proof (induction data pos v rule: vlqLoop.induct)
  case (1 data pos v)
  show ?case
  proof (cases "toInt (byteAt data pos) AND 0x80 \<noteq> 0")
    case True
    have "Suc pos < snd (vlqLoop data (Suc pos)
            (push_bit 7 v OR word_of_nat (toInt (byteAt data pos) AND 0x7F)))"
      using "1.IH" [of "(byteAt data pos, Suc pos)" "byteAt data pos" "Suc pos"
          "push_bit 7 v OR word_of_nat (toInt (byteAt data pos) AND 0x7F)"] True
      by (simp add: readUInt8_def)
    then show ?thesis
      using True by (subst vlqLoop.simps) (simp add: readUInt8_def)
  next
    case False
    then show ?thesis
      by (subst vlqLoop.simps) (simp add: readUInt8_def)
  qed
qed

lemma readVariableLength_position: "readVariableLength data pos b = (d, p) \<Longrightarrow> pos \<le> p"
  using vlqLoop_position [of pos data "word_of_nat (b AND 0x7F)"]
  by (auto simp: readVariableLength_def split: if_splits)

lemma mtrBody_position:
  "mtrBody data endPos tick s = (c, s') \<Longrightarrow> position s < position s'"
  by (auto simp: mtrBody_def readUInt8_def readUInt24BE_def Let_def less_Suc_eq_le
           split: option.splits if_splits prod.splits
           dest: readVariableLength_position)

text \<open>The \<open>while\<close> loop of \<open>parseMTR\<close>.\<close>

function mtrLoop :: "byte list \<Rightarrow> nat \<Rightarrow> rat \<Rightarrow> MTRState \<Rightarrow> MTRState" where
  "mtrLoop data endPos tickDuration s =
     (if int (position s) < int endPos - 1 then
        let (continue, s') = mtrBody data endPos tickDuration s
        in if continue then mtrLoop data endPos tickDuration s' else s'
      else s)"
  by pat_completeness auto
termination
proof (relation "measure (\<lambda>(data, endPos, tick, s). endPos - position s)")
  show "wf (measure (\<lambda>(data, endPos, tick, s). endPos - position s))"
    by simp
next
  fix data :: "byte list" and endPos :: nat and tickDuration :: rat
    and s s' :: MTRState and x :: "bool \<times> MTRState" and continue :: bool
  assume "int (position s) < int endPos - 1"
    and "x = mtrBody data endPos tickDuration s"
    and "(continue, s') = x"
  then have "position s < position s'" and "position s < endPos"
    using mtrBody_position [of data endPos tickDuration s continue s'] by auto
  then show "((data, endPos, tickDuration, s'), (data, endPos, tickDuration, s))
      \<in> measure (\<lambda>(data, endPos, tick, s). endPos - position s)"
    by simp
qed

declare mtrLoop.simps [simp del]

text \<open>
  \<open>parseMTR\<close>: the five sub-header reads, each followed by the check against the chunk's
  end, then the event loop; the cursor is left at \<open>endPos\<close>.
\<close>

definition parseMTR ::
  "byte list \<Rightarrow> nat \<Rightarrow> ChunkInfo \<Rightarrow> (MMFNote list \<times> enat option) \<times> nat" where
  "parseMTR data pos chunk =
     (let endPos = chunk_offset chunk + chunk_size chunk in
      if pos \<ge> endPos then (([], None), endPos)
      else
        let (formatType, p1) = readUInt8 data pos in
        if p1 \<ge> endPos then (([], None), endPos)
        else
          let (sequenceType, p2) = readUInt8 data p1 in
          if p2 \<ge> endPos then (([], None), endPos)
          else
            let (timeBaseD, p3) = readUInt8 data p2 in
            if p3 \<ge> endPos then (([], None), endPos)
            else
              let (timeBaseG, p4) = readUInt8 data p3 in
              if p4 \<ge> endPos then (([], None), endPos)
              else
                let (channelStatus, p5) = readUInt8 data p4 in
                if p5 \<ge> endPos then (([], None), endPos)
                else
                  let tickDuration = tickDurationOf timeBaseD;
                      s = mtrLoop data endPos tickDuration
                            \<lparr>position = p5, currentTime = 0, track_notes = [],
                             track_tempo = None\<rparr>
                  in ((track_notes s, track_tempo s), endPos))"

subsection \<open>\<open>parse\<close> (revision of part_001, lines 303-362)\<close>

text \<open>
  \<open>Object.assign(metadata, parsed)\<close>: the fields that the chunk's parser set replace the
  document's.
\<close>

definition assignMetadata :: "MMFMetadata \<Rightarrow> MMFMetadata \<Rightarrow> MMFMetadata" where
  "assignMetadata md new =
     \<lparr>title = (case title new of None \<Rightarrow> title md | Some t \<Rightarrow> Some t),
      composer = (case composer new of None \<Rightarrow> composer md | Some t \<Rightarrow> Some t),
      arranger = (case arranger new of None \<Rightarrow> arranger md | Some t \<Rightarrow> Some t),
      copyright = (case copyright new of None \<Rightarrow> copyright md | Some t \<Rightarrow> Some t)\<rparr>"

text \<open>
  \<open>if (trackData.tempo) tempo = trackData.tempo\<close>: \<open>undefined\<close> and 0 are falsy,
  \<open>Infinity\<close> is truthy.
\<close>

definition updateTempo :: "enat \<Rightarrow> enat option \<Rightarrow> enat" where
  "updateTempo tp trackTempo =
     (case trackTempo of None \<Rightarrow> tp | Some t \<Rightarrow> if t \<noteq> 0 then t else tp)"

text \<open>The locals \<open>metadata\<close>, \<open>notes\<close> and \<open>tempo\<close> of \<open>parse\<close>.\<close>

type_synonym parseAcc = "MMFMetadata \<times> MMFNote list \<times> enat"

text \<open>
  Every chunk handler leaves the cursor at the chunk's declared end, which lies at least
  the eight header bytes after the chunk's start.
\<close>

lemma readChunkHeader_Some:
  "readChunkHeader dec data pos = Some (chunk, p) \<Longrightarrow>
     p = pos + 8 \<and> chunk_offset chunk = pos + 8 \<and> pos + 8 < length data"
  by (auto simp: readChunkHeader_def readString_def readUInt32BE_def split: if_splits)

lemma parseCNTI_position:
  "parseCNTI dec data pos chunk = (md, p) \<Longrightarrow> p = chunk_offset chunk + chunk_size chunk"
  by (auto simp: parseCNTI_def Let_def)

lemma parseMTR_position:
  "parseMTR data pos chunk = (r, p) \<Longrightarrow> p = chunk_offset chunk + chunk_size chunk"
  by (auto simp: parseMTR_def Let_def split: if_splits prod.splits)

text \<open>
  Calls with a spread argument. \<open>notes.push(...trackData.notes)\<close> and
  \<open>Math.max(...xs)\<close> pass one argument for each element of the array. Every engine
  bounds the number of arguments of a call, by a constant or by the size of its stack,
  and throws a \<open>RangeError\<close> beyond the bound. The bound is the parameter \<open>argLimit\<close>
  of the model.
\<close>

definition pushSpread :: "nat \<Rightarrow> MMFNote list \<Rightarrow> MMFNote list \<Rightarrow> error + MMFNote list" where
  "pushSpread argLimit ns new =
     (if length new > argLimit then Inl RangeError else Inr (ns @ new))"

text \<open>\<open>Math.max\<close> of the arguments, called on a list that is not empty.\<close>

fun math_max :: "rat list \<Rightarrow> rat" where
  "math_max [] = 0"
| "math_max (x # xs) = fold max xs x"

definition maxSpread :: "nat \<Rightarrow> rat list \<Rightarrow> error + rat" where
  "maxSpread argLimit xs =
     (if length xs > argLimit then Inl RangeError else Inr (math_max xs))"

text \<open>
  The chunk loop \<open>while (this.position < this.data.length - 8)\<close> with its \<open>switch\<close>.
  An exception leaves the loop and \<open>parse\<close>.
\<close>

function parseChunks ::
  "nat \<Rightarrow> decoder \<Rightarrow> byte list \<Rightarrow> nat \<Rightarrow> parseAcc \<Rightarrow> error + parseAcc" where
  "parseChunks argLimit dec data pos acc =
     (if int pos < int (length data) - 8 then
        case readChunkHeader dec data pos of
          None \<Rightarrow> Inr acc
        | Some (chunk, p) \<Rightarrow>
            (case acc of (md, ns, tp) \<Rightarrow>
               if chunk_type chunk = js ''CNTI'' \<or> chunk_type chunk = js ''OPDA'' then
                 let (parsed, p') = parseCNTI dec data p chunk
                 in parseChunks argLimit dec data p' (assignMetadata md parsed, ns, tp)
               else if chunk_type chunk = js ''MTR '' \<or> chunk_type chunk = js ''Mtr '' then
                 let (trackData, p') = parseMTR data p chunk
                 in case pushSpread argLimit ns (fst trackData) of
                      Inl e \<Rightarrow> Inl e
                    | Inr ns' \<Rightarrow>
                        parseChunks argLimit dec data p'
                          (md, ns', updateTempo tp (snd trackData))
               else parseChunks argLimit dec data (chunk_offset chunk + chunk_size chunk) acc)
      else Inr acc)"
  by pat_completeness auto
termination
proof (relation "measure (\<lambda>(argLimit, dec, data, pos, acc). length data - pos)", goal_cases)
  case 1
  show ?case by simp
next
  case (2 argLimit dec data pos acc x2 chunk p md y ns tp x parsed p')
  then show ?case
    using readChunkHeader_Some [of dec data pos chunk p]
      parseCNTI_position [of dec data p chunk parsed p']
    by simp
next
  case (3 argLimit dec data pos acc x2 chunk p md y ns tp x trackData p' ns')
  then show ?case
    using readChunkHeader_Some [of dec data pos chunk p]
      parseMTR_position [of data p chunk trackData p']
    by simp
next
  case (4 argLimit dec data pos acc x2 chunk p md y ns tp)
  then show ?case
    using readChunkHeader_Some [of dec data pos chunk p] by simp
qed

declare parseChunks.simps [simp del]

text \<open>
  \<open>parse\<close>. The duration is \<open>Math.max(...notes.map(n => n.time + n.duration))\<close> when
  there are notes.
\<close>

definition parse :: "nat \<Rightarrow> decoder \<Rightarrow> byte list \<Rightarrow> error + MMFData" where
  "parse argLimit dec data =
     (let (ok, p0) = verifyHeader dec data 0 in
      if \<not> ok then Inl InvalidFormat
      else
        let (fileSize, p1) = readUInt32BE data p0
        in case parseChunks argLimit dec data p1 (emptyMetadata, [], 120) of
             Inl e \<Rightarrow> Inl e
           | Inr (md, ns, tp) \<Rightarrow>
               (case (if length ns > 0
                      then maxSpread argLimit (map (\<lambda>n. time n + duration n) ns)
                      else Inr 0) of
                  Inl e \<Rightarrow> Inl e
                | Inr dur \<Rightarrow>
                    Inr \<lparr>metadata = md, note_list = ns, total_duration = dur, tempo = tp\<rparr>))"

subsection \<open>\<open>parseMTR\<close> and \<open>parse\<close> in the revision of src/lib/mmf-parser.ts\<close>

text \<open>
  In \<^verbatim>\<open>src/lib/mmf-parser.ts\<close>, \<open>parseMTR\<close> (lines 150-223) reads no sub-header,
  adds the delta-time unscaled and has no bounds guards. Its
  \<open>this.position += length\<close> with an \<open>undefined\<close> length makes the position \<open>NaN\<close>,
  which fails the loop condition: the pass ends the loop.
\<close>

definition mtrBody_lib :: "byte list \<Rightarrow> nat \<Rightarrow> MTRState \<Rightarrow> bool \<times> MTRState" where
  "mtrBody_lib data endPos s =
     (let (status, p) = readUInt8 data (position s) in
      case status of
        None \<Rightarrow> if p \<ge> endPos then (False, s\<lparr>position := p\<rparr>) else (True, s\<lparr>position := p\<rparr>)
      | Some st \<Rightarrow>
          if 0x80 \<le> st \<and> st \<le> 0x8F then
            (let (note, p1) = readUInt8 data p;
                 (vel, p2) = readUInt8 data p1
             in (True, s\<lparr>position := p2\<rparr>))
          else if 0x90 \<le> st \<and> st \<le> 0x9F then
            (let (note, p1) = readUInt8 data p;
                 (vel, p2) = readUInt8 data p1
             in case note of
                  None \<Rightarrow> (True, s\<lparr>position := p2\<rparr>)
                | Some n \<Rightarrow>
                    (case vel of
                       None \<Rightarrow> (True, s\<lparr>position := p2\<rparr>)
                     | Some v \<Rightarrow>
                         if v > 0 then
                           (True, s\<lparr>position := p2,
                                    track_notes := track_notes s @
                                      [\<lparr>time = currentTime s, note_no = n,
                                        duration = DEFAULT_NOTE_DURATION_MS,
                                        velocity = v, channel = st AND 0x0F\<rparr>]\<rparr>)
                         else (True, s\<lparr>position := p2\<rparr>)))
          else if st = 0xFF then
            (let (metaType, p1) = readUInt8 data p;
                 (len, p2) = readUInt8 data p1
             in if metaType = Some 0x51 \<and> len = Some 3 then
                  let (microsecondsPerBeat, p3) = readUInt24BE data p2
                  in (True, s\<lparr>position := p3, track_tempo := Some (tempoOf microsecondsPerBeat)\<rparr>)
                else
                  (case len of
                     None \<Rightarrow> (False, s\<lparr>position := p2\<rparr>)
                   | Some l \<Rightarrow> (True, s\<lparr>position := p2 + l\<rparr>)))
          else if st < 0x80 then
            (let (deltaTime, p1) = readVariableLength data p st
             in (True, s\<lparr>position := p1, currentTime := currentTime s + of_int deltaTime\<rparr>))
          else if 0xB0 \<le> st \<and> st \<le> 0xEF then
            (let dataBytes = (if 0xC0 \<le> st \<and> st \<le> 0xDF then 1 else 2)
             in (True, s\<lparr>position := p + dataBytes\<rparr>))
          else if p \<ge> endPos then (False, s\<lparr>position := p\<rparr>)
          else (True, s\<lparr>position := p\<rparr>))"

lemma mtrBody_lib_position:
  "mtrBody_lib data endPos s = (c, s') \<Longrightarrow> position s < position s'"
  by (auto simp: mtrBody_lib_def readUInt8_def readUInt24BE_def Let_def less_Suc_eq_le
           split: option.splits if_splits prod.splits
           dest: readVariableLength_position)

function mtrLoop_lib :: "byte list \<Rightarrow> nat \<Rightarrow> MTRState \<Rightarrow> MTRState" where
  "mtrLoop_lib data endPos s =
     (if int (position s) < int endPos - 1 then
        let (continue, s') = mtrBody_lib data endPos s
        in if continue then mtrLoop_lib data endPos s' else s'
      else s)"
  by pat_completeness auto
termination
proof (relation "measure (\<lambda>(data, endPos, s). endPos - position s)")
  show "wf (measure (\<lambda>(data, endPos, s). endPos - position s))"
    by simp
next
  fix data :: "byte list" and endPos :: nat
    and s s' :: MTRState and x :: "bool \<times> MTRState" and continue :: bool
  assume "int (position s) < int endPos - 1"
    and "x = mtrBody_lib data endPos s"
    and "(continue, s') = x"
  then have "position s < position s'" and "position s < endPos"
    using mtrBody_lib_position [of data endPos s continue s'] by auto
  then show "((data, endPos, s'), (data, endPos, s))
      \<in> measure (\<lambda>(data, endPos, s). endPos - position s)"
    by simp
qed

declare mtrLoop_lib.simps [simp del]

definition parseMTR_lib ::
  "byte list \<Rightarrow> nat \<Rightarrow> ChunkInfo \<Rightarrow> (MMFNote list \<times> enat option) \<times> nat" where
  "parseMTR_lib data pos chunk =
     (let endPos = chunk_offset chunk + chunk_size chunk;
          s = mtrLoop_lib data endPos
                \<lparr>position = pos, currentTime = 0, track_notes = [], track_tempo = None\<rparr>
      in ((track_notes s, track_tempo s), endPos))"

lemma parseMTR_lib_position:
  "parseMTR_lib data pos chunk = (r, p) \<Longrightarrow> p = chunk_offset chunk + chunk_size chunk"
  by (auto simp: parseMTR_lib_def Let_def)

text \<open>
  The chunk loop of \<open>parse\<close> in \<^verbatim>\<open>src/lib/mmf-parser.ts\<close> (lines 58-84): the same
  loop with another \<open>switch\<close>, where \<open>OPDA\<close> is a track.
\<close>

function parseChunks_lib ::
  "nat \<Rightarrow> decoder \<Rightarrow> byte list \<Rightarrow> nat \<Rightarrow> parseAcc \<Rightarrow> error + parseAcc" where
  "parseChunks_lib argLimit dec data pos acc =
     (if int pos < int (length data) - 8 then
        case readChunkHeader dec data pos of
          None \<Rightarrow> Inr acc
        | Some (chunk, p) \<Rightarrow>
            (case acc of (md, ns, tp) \<Rightarrow>
               if chunk_type chunk = js ''CNTI'' then
                 let (parsed, p') = parseCNTI dec data p chunk
                 in parseChunks_lib argLimit dec data p' (assignMetadata md parsed, ns, tp)
               else if chunk_type chunk = js ''MTR '' \<or> chunk_type chunk = js ''Mtr ''
                       \<or> chunk_type chunk = js ''OPDA'' then
                 let (trackData, p') = parseMTR_lib data p chunk
                 in case pushSpread argLimit ns (fst trackData) of
                      Inl e \<Rightarrow> Inl e
                    | Inr ns' \<Rightarrow>
                        parseChunks_lib argLimit dec data p'
                          (md, ns', updateTempo tp (snd trackData))
               else parseChunks_lib argLimit dec data (chunk_offset chunk + chunk_size chunk) acc)
      else Inr acc)"
  by pat_completeness auto
termination
proof (relation "measure (\<lambda>(argLimit, dec, data, pos, acc). length data - pos)", goal_cases)
  case 1
  show ?case by simp
next
  case (2 argLimit dec data pos acc x2 chunk p md y ns tp x parsed p')
  then show ?case
    using readChunkHeader_Some [of dec data pos chunk p]
      parseCNTI_position [of dec data p chunk parsed p']
    by simp
next
  case (3 argLimit dec data pos acc x2 chunk p md y ns tp x trackData p' ns')
  then show ?case
    using readChunkHeader_Some [of dec data pos chunk p]
      parseMTR_lib_position [of data p chunk trackData p']
    by simp
next
  case (4 argLimit dec data pos acc x2 chunk p md y ns tp)
  then show ?case
    using readChunkHeader_Some [of dec data pos chunk p] by simp
qed

declare parseChunks_lib.simps [simp del]

definition parse_lib :: "nat \<Rightarrow> decoder \<Rightarrow> byte list \<Rightarrow> error + MMFData" where
  "parse_lib argLimit dec data =
     (let (ok, p0) = verifyHeader dec data 0 in
      if \<not> ok then Inl InvalidFormat
      else
        let (fileSize, p1) = readUInt32BE data p0
        in case parseChunks_lib argLimit dec data p1 (emptyMetadata, [], 120) of
             Inl e \<Rightarrow> Inl e
           | Inr (md, ns, tp) \<Rightarrow>
               (case (if length ns > 0
                      then maxSpread argLimit (map (\<lambda>n. time n + duration n) ns)
                      else Inr 0) of
                  Inl e \<Rightarrow> Inl e
                | Inr dur \<Rightarrow>
                    Inr \<lparr>metadata = md, note_list = ns, total_duration = dur, tempo = tp\<rparr>))"

section \<open>The player (class MMFPlayer, part_001 lines 1-259)\<close>

text \<open>
  The player runs on JavaScript's single thread: each method runs to its end before any
  timer or animation-frame callback. The model is a state record and one function per
  method and per callback. The world outside the class is part of the record, so that
  what the player does to it can be observed:
  \<^item> \<open>audioLog\<close>: the tone requests sent to the Web Audio API and their cancellations;
  \<^item> \<open>notifications\<close>: the calls of the \<open>options\<close> callbacks;
  \<^item> \<open>timers\<close>: the \<open>setTimeout\<close> callbacks that have not fired yet;
  \<^item> \<open>frames\<close>: the number of pending \<open>requestAnimationFrame\<close> callbacks.
  The reading of the clock \<open>audioContext.currentTime\<close> is an argument \<open>now\<close> of the
  methods that read it. Creating an oscillator is taken to succeed, so the \<open>catch\<close> of
  \<open>playNote\<close> is not modelled.
\<close>

datatype PlayerState = Idle | Playing | Paused | Stopped

datatype notification = StateChange PlayerState | Progress rat | End

text \<open>
  A tone request is the oscillator created by \<open>playNote\<close> with its note, start and end
  instants; \<open>Cancel\<close> is the \<open>source.stop()\<close> of \<open>clearScheduledNotes\<close>.
\<close>

datatype audio_cmd = Schedule nat MMFNote rat rat | Cancel nat

text \<open>
  The two \<open>setTimeout\<close> callbacks: the end-of-playback callback of \<open>play\<close> (with its
  delay, the document's duration) and the return to idle of \<open>stop\<close> (100 ms). Neither
  closure captures anything but \<open>this\<close>.
\<close>

datatype timer = EndTimer rat | IdleTimer

datatype player_error = NoDataLoaded

record MMFPlayer =
  audioContext :: bool
  mmfData :: "MMFData option"
  state :: PlayerState
  startTime :: rat
  pauseTime :: rat
  scheduledNotes :: "nat list"
  nextOscillator :: nat
  audioLog :: "audio_cmd list"
  notifications :: "notification list"
  timers :: "timer list"
  frames :: nat

text \<open>The player after its constructor.\<close>

definition newPlayer :: MMFPlayer where
  "newPlayer =
     \<lparr>audioContext = False, mmfData = None, state = Idle, startTime = 0, pauseTime = 0,
      scheduledNotes = [], nextOscillator = 0, audioLog = [], notifications = [],
      timers = [], frames = 0\<rparr>"

definition setState :: "PlayerState \<Rightarrow> MMFPlayer \<Rightarrow> MMFPlayer" where
  "setState newState s =
     (if state s = newState then s
      else s\<lparr>state := newState, notifications := notifications s @ [StateChange newState]\<rparr>)"

definition clearScheduledNotes :: "MMFPlayer \<Rightarrow> MMFPlayer" where
  "clearScheduledNotes s =
     s\<lparr>audioLog := audioLog s @ map Cancel (scheduledNotes s), scheduledNotes := []\<rparr>"

definition stop :: "MMFPlayer \<Rightarrow> MMFPlayer" where
  "stop s =
     (if state s = Idle then s
      else
        let s1 = setState Stopped s;
            s2 = clearScheduledNotes s1
        in s2\<lparr>startTime := 0, pauseTime := 0, timers := timers s2 @ [IdleTimer]\<rparr>)"

text \<open>The callback that \<open>stop\<close> hands to \<open>setTimeout\<close>.\<close>

definition idleCallback :: "MMFPlayer \<Rightarrow> MMFPlayer" where
  "idleCallback s = (if state s = Stopped then setState Idle s else s)"

definition playNote :: "MMFNote \<Rightarrow> rat \<Rightarrow> rat \<Rightarrow> MMFPlayer \<Rightarrow> MMFPlayer" where
  "playNote n startT endT s =
     (if \<not> audioContext s then s
      else s\<lparr>audioLog := audioLog s @ [Schedule (nextOscillator s) n startT endT],
             scheduledNotes := scheduledNotes s @ [nextOscillator s],
             nextOscillator := nextOscillator s + 1\<rparr>)"

text \<open>The \<open>for\<close> loop of \<open>scheduleNotes\<close>.\<close>

fun scheduleLoop :: "rat \<Rightarrow> rat \<Rightarrow> MMFNote list \<Rightarrow> MMFPlayer \<Rightarrow> MMFPlayer" where
  "scheduleLoop fromTime now [] s = s"
| "scheduleLoop fromTime now (n # ns) s =
     (if time n < fromTime then scheduleLoop fromTime now ns s
      else
        let startT = now + (time n - fromTime) / 1000;
            endT = startT + duration n / 1000
        in scheduleLoop fromTime now ns (playNote n startT endT s))"

definition scheduleNotes :: "rat \<Rightarrow> rat \<Rightarrow> MMFPlayer \<Rightarrow> MMFPlayer" where
  "scheduleNotes fromTime now s =
     (case mmfData s of
        None \<Rightarrow> s
      | Some d \<Rightarrow> if \<not> audioContext s then s else scheduleLoop fromTime now (note_list d) s)"

definition startProgressTracking :: "MMFPlayer \<Rightarrow> MMFPlayer" where
  "startProgressTracking s =
     (if state s \<noteq> Playing \<or> mmfData s = None then s else s\<lparr>frames := frames s + 1\<rparr>)"

definition getCurrentTime :: "rat \<Rightarrow> MMFPlayer \<Rightarrow> rat" where
  "getCurrentTime now s =
     (if \<not> audioContext s then 0
      else if state s = Playing then (now - startTime s) * 1000
      else if state s = Paused then pauseTime s * 1000
      else 0)"

text \<open>
  The animation-frame callback \<open>updateProgress\<close>, run on one pending frame. It reads
  \<open>this.mmfData!\<close>; without a document the model leaves the player as it is.
\<close>

definition updateProgress :: "rat \<Rightarrow> MMFPlayer \<Rightarrow> MMFPlayer" where
  "updateProgress now s =
     (if state s \<noteq> Playing then s
      else
        case mmfData s of
          None \<Rightarrow> s
        | Some d \<Rightarrow>
            let currentT = getCurrentTime now s;
                progress = (if total_duration d > 0 then currentT / total_duration d else 0);
                s1 = s\<lparr>notifications := notifications s @ [Progress (min progress 1)]\<rparr>
            in if progress < 1 then s1\<lparr>frames := frames s1 + 1\<rparr> else s1)"

definition resume :: "rat \<Rightarrow> MMFPlayer \<Rightarrow> MMFPlayer" where
  "resume now s =
     (if state s \<noteq> Paused \<or> \<not> audioContext s \<or> mmfData s = None then s
      else
        let s1 = setState Playing s;
            s2 = s1\<lparr>startTime := now - pauseTime s1\<rparr>;
            s3 = scheduleNotes (pauseTime s2 * 1000) now s2
        in startProgressTracking s3)"

text \<open>
  \<open>play\<close>. It is \<open>async\<close> but awaits nothing, so it runs as one step; its \<open>throw\<close> is
  the error value.
\<close>

definition play :: "rat \<Rightarrow> MMFPlayer \<Rightarrow> player_error + MMFPlayer" where
  "play now s =
     (case mmfData s of
        None \<Rightarrow> Inl NoDataLoaded
      | Some d \<Rightarrow>
          let s0 = s\<lparr>audioContext := True\<rparr> in
          if state s0 = Paused then Inr (resume now s0)
          else
            let s1 = (if state s0 = Playing then stop s0 else s0);
                s2 = setState Playing s1;
                s3 = s2\<lparr>startTime := now\<rparr>;
                s4 = scheduleNotes 0 now s3;
                s5 = startProgressTracking s4
            in Inr (if total_duration d > 0
                    then s5\<lparr>timers := timers s5 @ [EndTimer (total_duration d)]\<rparr>
                    else s5))"

text \<open>The callback that \<open>play\<close> hands to \<open>setTimeout\<close>.\<close>

definition endCallback :: "MMFPlayer \<Rightarrow> MMFPlayer" where
  "endCallback s =
     (if state s = Playing then
        let s1 = stop s in s1\<lparr>notifications := notifications s1 @ [End]\<rparr>
      else s)"

definition pause :: "rat \<Rightarrow> MMFPlayer \<Rightarrow> MMFPlayer" where
  "pause now s =
     (if state s \<noteq> Playing then s
      else
        let s1 = setState Paused s;
            s2 = s1\<lparr>pauseTime := now - startTime s1\<rparr>
        in clearScheduledNotes s2)"

definition load :: "MMFData \<Rightarrow> MMFPlayer \<Rightarrow> MMFPlayer" where
  "load d s = stop (s\<lparr>mmfData := Some d\<rparr>)"

definition dispose :: "MMFPlayer \<Rightarrow> MMFPlayer" where
  "dispose s = (let s1 = stop s in s1\<lparr>audioContext := False, mmfData := None\<rparr>)"

text \<open>\<open>oscillator.onended\<close>: the first entry with this oscillator leaves the list.\<close>

definition onended :: "nat \<Rightarrow> MMFPlayer \<Rightarrow> MMFPlayer" where
  "onended h s = s\<lparr>scheduledNotes := remove1 h (scheduledNotes s)\<rparr>"

subsection \<open>Runs of the player\<close>

text \<open>
  What can happen to a player: a call of a public method, the firing of the \<open>i\<close>-th
  pending timer, an animation frame, the natural end of a tone. A \<open>play\<close> that throws
  leaves the player as it was.
\<close>

datatype event =
  Load MMFData | Play rat | Pause rat | Stop | Dispose | Timeout nat | Frame rat | NoteEnded nat

definition fireTimer :: "nat \<Rightarrow> MMFPlayer \<Rightarrow> MMFPlayer" where
  "fireTimer i s =
     (if i < length (timers s) then
        let s1 = s\<lparr>timers := take i (timers s) @ drop (Suc i) (timers s)\<rparr>
        in case timers s ! i of
             EndTimer delay \<Rightarrow> endCallback s1
           | IdleTimer \<Rightarrow> idleCallback s1
      else s)"

fun step :: "event \<Rightarrow> MMFPlayer \<Rightarrow> MMFPlayer" where
  "step (Load d) s = load d s"
| "step (Play now) s = (case play now s of Inl e \<Rightarrow> s | Inr s' \<Rightarrow> s')"
| "step (Pause now) s = pause now s"
| "step Stop s = stop s"
| "step Dispose s = dispose s"
| "step (Timeout i) s = fireTimer i s"
| "step (Frame now) s =
     (if frames s > 0 then updateProgress now (s\<lparr>frames := frames s - 1\<rparr>) else s)"
| "step (NoteEnded h) s = onended h s"

definition run :: "event list \<Rightarrow> MMFPlayer \<Rightarrow> MMFPlayer" where
  "run evs s = fold step evs s"

text \<open>The states carried by the \<open>onStateChange\<close> notifications, in order.\<close>

fun stateChanges :: "notification list \<Rightarrow> PlayerState list" where
  "stateChanges [] = []"
| "stateChanges (StateChange st # ns) = st # stateChanges ns"
| "stateChanges (n # ns) = stateChanges ns"

section \<open>Facts about the readers\<close>

lemma nat_and_128: "n < 128 \<Longrightarrow> n AND 128 = (0::nat)"
proof -
  assume "n < 128"
  then have "\<not> bit n 7" by (simp add: bit_iff_odd)
  then have "n AND 2 ^ 7 = 0" by (simp only: and_exp_eq_0_iff_not_bit simp_thms)
  then show ?thesis by simp
qed

lemma push_bit_or_add:
  assumes "a < 2 ^ n"
  shows "push_bit n b OR a = b * 2 ^ n + (a::nat)"
proof -
  have "\<not> bit (push_bit n b) k \<or> \<not> bit a k" for k
  proof (cases "k < n")
    case True
    then show ?thesis by (simp add: bit_push_bit_iff)
  next
    case False
    then have "(2::nat) ^ n \<le> 2 ^ k" by simp
    with assms have "a < 2 ^ k" by linarith
    then show ?thesis by (simp add: bit_iff_odd)
  qed
  then have "push_bit n b + a = push_bit n b OR a" by (rule disjunctive_add)
  then show ?thesis by (simp add: push_bit_eq_mult)
qed

text \<open>The big-endian value of three bytes.\<close>

lemma big_endian_24:
  assumes "a < 256" "b < 256" "c < 256"
  shows "push_bit 16 a OR push_bit 8 b OR c = a * 65536 + b * 256 + (c::nat)"
proof -
  have 1: "push_bit 8 b OR c = b * 256 + c"
    using push_bit_or_add [of c 8 b] assms by simp
  have "b * 256 + c < 2 ^ 16" using assms by simp
  then have "push_bit 16 a OR (b * 256 + c) = a * 2 ^ 16 + (b * 256 + c)"
    by (rule push_bit_or_add)
  then show ?thesis using 1 by (simp add: or.assoc)
qed

text \<open>
  A first byte below \<open>0x80\<close> has no continuation bit: \<open>readVariableLength\<close> returns it
  and reads nothing. The event loop calls it with such a byte only.
\<close>

lemma readVariableLength_small:
  "b < 128 \<Longrightarrow> readVariableLength data pos b = (int b, pos)"
  by (simp add: readVariableLength_def nat_and_128)

lemma byteAt_bound: "byteAt data i = Some b \<Longrightarrow> b < 256"
  using unsigned_less [of "data ! i", where ?'a = nat]
  by (auto simp: byteAt_def split: if_splits)

lemma byteAt_take_drop:
  assumes "take n (drop p data) = bs" and "i < length bs"
  shows "byteAt data (p + i) = Some (unat (bs ! i))"
proof -
  from assms have "i < n" and "p + i < length data" by auto
  moreover from assms have "bs ! i = data ! (p + i)" by auto
  ultimately show ?thesis by (simp add: byteAt_def)
qed

lemma math_round_divide:
  assumes "m > 0"
  shows "math_round (rat_of_nat a / rat_of_nat m) = int ((2 * a + m) div (2 * m))"
proof -
  have "rat_of_nat a / rat_of_nat m + 1 / 2
      = rat_of_int (int (2 * a + m)) / rat_of_int (int (2 * m))"
    using assms by (simp add: field_simps)
  then show ?thesis
    unfolding math_round_def by (simp only: floor_divide_of_int_eq zdiv_int)
qed

lemma tempoOf_pos: "m > 0 \<Longrightarrow> tempoOf m = enat ((120000000 + m) div (2 * m))"
  using math_round_divide [of m 60000000] by (simp add: tempoOf_def)

section \<open>What one pass of the event loop does to the time and to the notes\<close>

text \<open>The tick count of the delta-time event at the cursor, if there is one.\<close>

definition deltaAt :: "byte list \<Rightarrow> MTRState \<Rightarrow> nat option" where
  "deltaAt data s =
     (case byteAt data (position s) of
        None \<Rightarrow> None
      | Some st \<Rightarrow> if st < 0x80 then Some st else None)"

lemma mtrBody_notes:
  assumes "mtrBody data endPos tick s = (c, s')"
  shows "track_notes s' = track_notes s
       \<or> (\<exists>n. track_notes s' = track_notes s @ [n] \<and> time n = currentTime s)"
  using assms
  by (auto simp: mtrBody_def readUInt8_def readUInt24BE_def Let_def
        split: option.splits if_splits prod.splits)

lemma mtrBody_time:
  assumes "mtrBody data endPos tick s = (c, s')"
  shows "currentTime s' = currentTime s + rat_of_nat (toInt (deltaAt data s)) * tick"
  using assms
  by (auto simp: mtrBody_def readUInt8_def readUInt24BE_def Let_def readVariableLength_small
        deltaAt_def toInt_def
        split: option.splits if_splits prod.splits)

lemma mtrBody_lib_notes:
  assumes "mtrBody_lib data endPos s = (c, s')"
  shows "track_notes s' = track_notes s
       \<or> (\<exists>n. track_notes s' = track_notes s @ [n] \<and> time n = currentTime s)"
  using assms
  by (auto simp: mtrBody_lib_def readUInt8_def readUInt24BE_def Let_def
        split: option.splits if_splits prod.splits)

lemma mtrBody_lib_time:
  assumes "mtrBody_lib data endPos s = (c, s')"
  shows "currentTime s' = currentTime s + rat_of_nat (toInt (deltaAt data s))"
  using assms
  by (auto simp: mtrBody_lib_def readUInt8_def readUInt24BE_def Let_def
        readVariableLength_small deltaAt_def toInt_def
        split: option.splits if_splits prod.splits)

section \<open>The notes of a track are in time order\<close>

text \<open>
  The invariant of the event loop: the notes found so far are in time order and none is
  later than the running time.
\<close>

definition mtrOrdered :: "MTRState \<Rightarrow> bool" where
  "mtrOrdered s \<longleftrightarrow>
     sorted (map time (track_notes s)) \<and> (\<forall>n \<in> set (track_notes s). time n \<le> currentTime s)"

lemma mtrOrdered_pass:
  assumes "mtrOrdered s" and "currentTime s \<le> currentTime s'"
    and "track_notes s' = track_notes s
       \<or> (\<exists>n. track_notes s' = track_notes s @ [n] \<and> time n = currentTime s)"
  shows "mtrOrdered s'"
  using assms(3)
proof
  assume "track_notes s' = track_notes s"
  with assms(1,2) show ?thesis by (fastforce simp: mtrOrdered_def)
next
  assume "\<exists>n. track_notes s' = track_notes s @ [n] \<and> time n = currentTime s"
  then obtain n where "track_notes s' = track_notes s @ [n]" "time n = currentTime s"
    by blast
  with assms(1,2) show ?thesis by (fastforce simp: mtrOrdered_def sorted_append)
qed

lemma mtrBody_ordered:
  assumes "0 \<le> tick" and "mtrOrdered s" and "mtrBody data endPos tick s = (c, s')"
  shows "mtrOrdered s'"
proof -
  have "currentTime s \<le> currentTime s'"
    using mtrBody_time [OF assms(3)] assms(1) by simp
  then show ?thesis
    using mtrOrdered_pass [OF assms(2) _ mtrBody_notes [OF assms(3)]] by simp
qed

lemma mtrBody_lib_ordered:
  assumes "mtrOrdered s" and "mtrBody_lib data endPos s = (c, s')"
  shows "mtrOrdered s'"
proof -
  have "currentTime s \<le> currentTime s'"
    using mtrBody_lib_time [OF assms(2)] by simp
  then show ?thesis
    using mtrOrdered_pass [OF assms(1) _ mtrBody_lib_notes [OF assms(2)]] by simp
qed

lemma mtrLoop_ordered:
  "0 \<le> tick \<Longrightarrow> mtrOrdered s \<Longrightarrow> mtrOrdered (mtrLoop data endPos tick s)"
proof (induction data endPos tick s rule: mtrLoop.induct)
  case (1 data endPos tick s)
  show ?case
  proof (cases "int (position s) < int endPos - 1")
    case False
    with 1 show ?thesis by (simp add: mtrLoop.simps)
  next
    case True
    obtain c s' where b: "mtrBody data endPos tick s = (c, s')" by fastforce
    then have o: "mtrOrdered s'" using 1(2,3) mtrBody_ordered by blast
    show ?thesis
    proof (cases c)
      case True
      with 1(1) [OF \<open>int (position s) < int endPos - 1\<close> b [symmetric] refl True 1(2) o] b
        \<open>int (position s) < int endPos - 1\<close>
      show ?thesis by (subst mtrLoop.simps) simp
    next
      case False
      with b o \<open>int (position s) < int endPos - 1\<close> show ?thesis
        by (subst mtrLoop.simps) simp
    qed
  qed
qed

lemma mtrLoop_lib_ordered:
  "mtrOrdered s \<Longrightarrow> mtrOrdered (mtrLoop_lib data endPos s)"
proof (induction data endPos s rule: mtrLoop_lib.induct)
  case (1 data endPos s)
  show ?case
  proof (cases "int (position s) < int endPos - 1")
    case False
    with 1 show ?thesis by (simp add: mtrLoop_lib.simps)
  next
    case True
    obtain c s' where b: "mtrBody_lib data endPos s = (c, s')" by fastforce
    then have o: "mtrOrdered s'" using 1(2) mtrBody_lib_ordered by blast
    show ?thesis
    proof (cases c)
      case True
      with 1(1) [OF \<open>int (position s) < int endPos - 1\<close> b [symmetric] refl True o] b
        \<open>int (position s) < int endPos - 1\<close>
      show ?thesis by (subst mtrLoop_lib.simps) simp
    next
      case False
      with b o \<open>int (position s) < int endPos - 1\<close> show ?thesis
        by (subst mtrLoop_lib.simps) simp
    qed
  qed
qed

lemma tickDurationOf_pos: "0 < tickDurationOf d"
  by (simp add: tickDurationOf_def split: option.splits)

lemma mtrOrdered_initial:
  "mtrOrdered \<lparr>position = p, currentTime = 0, track_notes = [], track_tempo = None\<rparr>"
  by (simp add: mtrOrdered_def)

text \<open>
  Claim C8. For every buffer, cursor and chunk, the notes that \<open>parseMTR\<close> returns are
  in non-decreasing order of their start time \<open>time\<close>; this holds for the \<open>parseMTR\<close>
  of both revisions. The running time only grows: a delta-time byte is below \<open>0x80\<close>,
  so its tick count is not negative, and the tick duration is positive.
\<close>

theorem parseMTR_notes_sorted:
  "sorted (map time (fst (fst (parseMTR data pos chunk))))
   \<and> sorted (map time (fst (fst (parseMTR_lib data pos chunk))))"
proof
  have "mtrOrdered (mtrLoop data e (tickDurationOf d)
      \<lparr>position = p, currentTime = 0, track_notes = [], track_tempo = None\<rparr>)" for e d p
    using mtrLoop_ordered [OF less_imp_le [OF tickDurationOf_pos] mtrOrdered_initial] .
  then show "sorted (map time (fst (fst (parseMTR data pos chunk))))"
    by (simp add: parseMTR_def Let_def readUInt8_def mtrOrdered_def)
next
  have "mtrOrdered (mtrLoop_lib data e
      \<lparr>position = p, currentTime = 0, track_notes = [], track_tempo = None\<rparr>)" for e p
    using mtrLoop_lib_ordered [OF mtrOrdered_initial] .
  then show "sorted (map time (fst (fst (parseMTR_lib data pos chunk))))"
    by (simp add: parseMTR_lib_def Let_def mtrOrdered_def)
qed

section \<open>The sub-header of a track\<close>

text \<open>
  A pass of the event loop looks at the buffer from its cursor on only, and so does the
  loop.
\<close>

lemma mtrBody_cong:
  assumes "\<forall>i \<ge> position s. byteAt data' i = byteAt data i"
  shows "mtrBody data' endPos tick s = mtrBody data endPos tick s"
proof -
  have b: "position s \<le> i \<Longrightarrow> byteAt data' i = byteAt data i" for i
    using assms by simp
  show ?thesis
    by (simp add: mtrBody_def readUInt8_def readUInt24BE_def Let_def readVariableLength_small b
          cong: option.case_cong if_cong)
qed

lemma mtrLoop_cong:
  "\<forall>i \<ge> position s. byteAt data' i = byteAt data i \<Longrightarrow>
     mtrLoop data' endPos tick s = mtrLoop data endPos tick s"
proof (induction data endPos tick s rule: mtrLoop.induct)
  case (1 data endPos tick s)
  note same = mtrBody_cong [OF 1(2), of endPos tick]
  show ?case
  proof (cases "int (position s) < int endPos - 1")
    case False
    then show ?thesis by (simp add: mtrLoop.simps)
  next
    case True
    obtain c s' where b: "mtrBody data endPos tick s = (c, s')" by fastforce
    have "position s < position s'" using mtrBody_position [OF b] .
    with 1(2) have agree: "\<forall>i \<ge> position s'. byteAt data' i = byteAt data i" by simp
    show ?thesis
    proof (cases c)
      case True
      have "mtrLoop data' endPos tick s' = mtrLoop data endPos tick s'"
        using 1(1) [OF \<open>int (position s) < int endPos - 1\<close> b [symmetric] refl True agree] .
      then show ?thesis
        using b same True \<open>int (position s) < int endPos - 1\<close>
        by (simp add: mtrLoop.simps [of _ endPos tick s])
    next
      case False
      then show ?thesis
        using b same \<open>int (position s) < int endPos - 1\<close>
        by (simp add: mtrLoop.simps [of _ endPos tick s])
    qed
  qed
qed

text \<open>With a complete sub-header, \<open>parseMTR\<close> is the event loop from the sixth byte.\<close>

lemma parseMTR_loop:
  assumes "pos + 5 < chunk_offset chunk + chunk_size chunk"
  shows "parseMTR data pos chunk =
        (let s = mtrLoop data (chunk_offset chunk + chunk_size chunk)
                   (tickDurationOf (byteAt data (pos + 2)))
                   \<lparr>position = pos + 5, currentTime = 0, track_notes = [], track_tempo = None\<rparr>
         in ((track_notes s, track_tempo s), chunk_offset chunk + chunk_size chunk))"
  using assms by (simp add: parseMTR_def Let_def readUInt8_def numeral_eq_Suc)

text \<open>
  The sub-header in the revision of part_001. There \<open>parseMTR\<close> starts with the five one-byte reads of
  the sub-header, at the cursor \<open>pos\<close> and the four bytes after it.
  \<^item> When the chunk's end is at most five bytes after the cursor (the chunk cannot hold
    the five fields, or holds nothing more), the result is the empty note list and no
    tempo, with the cursor at the chunk's end.
  \<^item> Otherwise the event loop starts at the sixth byte, \<open>pos + 5\<close>, with the tick
    duration taken from the third byte, \<open>pos + 2\<close>, the duration time base.
  \<^item> The format type, the sequence type, the gate time base and the channel status
    (bytes \<open>pos\<close>, \<open>pos + 1\<close>, \<open>pos + 3\<close>, \<open>pos + 4\<close>) are read and not used: the
    result is the same whatever their values, so none is taken as an event.
\<close>

theorem parseMTR_subheader:
  "(chunk_offset chunk + chunk_size chunk \<le> pos + 5 \<longrightarrow>
      parseMTR data pos chunk = (([], None), chunk_offset chunk + chunk_size chunk))
   \<and> (pos + 5 < chunk_offset chunk + chunk_size chunk \<longrightarrow>
      parseMTR data pos chunk =
        (let s = mtrLoop data (chunk_offset chunk + chunk_size chunk)
                   (tickDurationOf (byteAt data (pos + 2)))
                   \<lparr>position = pos + 5, currentTime = 0, track_notes = [], track_tempo = None\<rparr>
         in ((track_notes s, track_tempo s), chunk_offset chunk + chunk_size chunk)))
   \<and> parseMTR (data[pos := formatType, pos + 1 := sequenceType, pos + 3 := timeBaseG,
                     pos + 4 := channelStatus]) pos chunk
       = parseMTR data pos chunk"
proof (intro conjI impI)
  assume "chunk_offset chunk + chunk_size chunk \<le> pos + 5"
  then show "parseMTR data pos chunk = (([], None), chunk_offset chunk + chunk_size chunk)"
    by (simp add: parseMTR_def Let_def readUInt8_def)
next
  assume "pos + 5 < chunk_offset chunk + chunk_size chunk"
  then show "parseMTR data pos chunk =
        (let s = mtrLoop data (chunk_offset chunk + chunk_size chunk)
                   (tickDurationOf (byteAt data (pos + 2)))
                   \<lparr>position = pos + 5, currentTime = 0, track_notes = [], track_tempo = None\<rparr>
         in ((track_notes s, track_tempo s), chunk_offset chunk + chunk_size chunk))"
    by (rule parseMTR_loop)
next
  define data' where "data' = data[pos := formatType, pos + 1 := sequenceType,
    pos + 3 := timeBaseG, pos + 4 := channelStatus]"
  have b: "byteAt data' i = byteAt data i" if "i \<notin> {pos, pos + 1, pos + 3, pos + 4}" for i
    using that by (simp add: byteAt_def data'_def)
  have l: "mtrLoop data' e t
             \<lparr>position = pos + 5, currentTime = 0, track_notes = [], track_tempo = None\<rparr>
         = mtrLoop data e t
             \<lparr>position = pos + 5, currentTime = 0, track_notes = [], track_tempo = None\<rparr>"
    for e t
    by (rule mtrLoop_cong) (simp add: b)
  have d: "byteAt data' (pos + 2) = byteAt data (pos + 2)" by (simp add: b)
  have "parseMTR data' pos chunk = parseMTR data pos chunk"
  proof (cases "pos + 5 < chunk_offset chunk + chunk_size chunk")
    case True
    then show ?thesis
      using l d by (simp add: parseMTR_def Let_def readUInt8_def numeral_eq_Suc)
  next
    case False
    then show ?thesis by (simp add: parseMTR_def Let_def readUInt8_def)
  qed
  then show "parseMTR (data[pos := formatType, pos + 1 := sequenceType, pos + 3 := timeBaseG,
                     pos + 4 := channelStatus]) pos chunk = parseMTR data pos chunk"
    by (simp add: data'_def)
qed

text \<open>
  A track for the examples: the sub-header with duration time base 48, a note-on, a
  delta-time of 24 ticks, a note-on, a tempo event of 500000 microseconds per beat, the
  status byte \<open>0xA0\<close> followed by the bytes 5 and 7, a note-on, and two bytes of padding.
\<close>

definition track_example :: "byte list" where
  "track_example =
     [0, 0, 48, 48, 0, 0x90, 60, 100, 24, 0x91, 62, 90, 0xFF, 0x51, 3, 0x07, 0xA1, 0x20,
      0xA0, 5, 7, 0x90, 64, 1, 0, 0]"

lemmas eval_defs = readUInt8_def byteAt_def tickDurationOf_def mtrLoop.simps mtrBody_def
  readVariableLength_small readUInt24BE_def toInt_def tempoOf_pos DEFAULT_NOTE_DURATION_MS_def
  numeral_eq_enat

theorem parseMTR_subheader_witness:
  "parseMTR track_example 0 \<lparr>chunk_type = [], chunk_size = 4, chunk_offset = 0\<rparr>
     = (([], None), 4)
   \<and> parseMTR track_example 0 \<lparr>chunk_type = [], chunk_size = 26, chunk_offset = 0\<rparr>
     = (([\<lparr>time = 0, note_no = 60, duration = 250, velocity = 100, channel = 0\<rparr>,
          \<lparr>time = 250, note_no = 62, duration = 250, velocity = 90, channel = 1\<rparr>,
          \<lparr>time = 375, note_no = 64, duration = 250, velocity = 1, channel = 0\<rparr>],
         Some 120), 26)
   \<and> parseMTR (track_example[0 := 7, 1 := 0x90, 3 := 0xFF, 4 := 0x51]) 0
         \<lparr>chunk_type = [], chunk_size = 26, chunk_offset = 0\<rparr>
     = parseMTR track_example 0 \<lparr>chunk_type = [], chunk_size = 26, chunk_offset = 0\<rparr>"
  using parseMTR_subheader [of "\<lparr>chunk_type = [], chunk_size = 4, chunk_offset = 0\<rparr>" 0
      track_example 7 144 255 81]
    parseMTR_subheader [of "\<lparr>chunk_type = [], chunk_size = 26, chunk_offset = 0\<rparr>" 0
      track_example 7 144 255 81]
  by (simp add: track_example_def eval_defs)

text \<open>
  The revision of \<^verbatim>\<open>src/lib/mmf-parser.ts\<close> has no sub-header and no time base: on
  the same bytes its \<open>parseMTR\<close> takes the five bytes as delta-times (96 ticks in all)
  and counts one millisecond for each tick.
\<close>

lemma parseMTR_lib_example:
  "parseMTR_lib track_example 0 \<lparr>chunk_type = [], chunk_size = 26, chunk_offset = 0\<rparr>
     = (([\<lparr>time = 96, note_no = 60, duration = 250, velocity = 100, channel = 0\<rparr>,
          \<lparr>time = 120, note_no = 62, duration = 250, velocity = 90, channel = 1\<rparr>,
          \<lparr>time = 132, note_no = 64, duration = 250, velocity = 1, channel = 0\<rparr>],
         Some 120), 26)"
  by (simp add: parseMTR_lib_def track_example_def readUInt8_def byteAt_def mtrLoop_lib.simps
        mtrBody_lib_def readVariableLength_small readUInt24BE_def toInt_def tempoOf_pos
        DEFAULT_NOTE_DURATION_MS_def numeral_eq_enat)

section \<open>Single events of the stream\<close>

text \<open>A pass that ends in \<open>continue\<close> is followed by the rest of the loop.\<close>

lemma mtrLoop_pass:
  assumes "int (position s) < int endPos - 1" and "mtrBody data endPos tick s = (True, s')"
  shows "mtrLoop data endPos tick s = mtrLoop data endPos tick s'"
  using assms by (subst mtrLoop.simps) simp

lemma mtrLoop_lib_pass:
  assumes "int (position s) < int endPos - 1" and "mtrBody_lib data endPos s = (True, s')"
  shows "mtrLoop_lib data endPos s = mtrLoop_lib data endPos s'"
  using assms by (subst mtrLoop_lib.simps) simp

lemma tempoOf_rounds:
  assumes "m > 0"
  shows "\<exists>k. tempoOf m = enat k \<and> rat_of_nat k - 1 / 2 \<le> 60000000 / rat_of_nat m
           \<and> 60000000 / rat_of_nat m < rat_of_nat k + 1 / 2"
proof -
  define x where "x = 60000000 / rat_of_nat m"
  have "0 < x" using assms by (simp add: x_def)
  then have f: "0 \<le> \<lfloor>x + 1 / 2\<rfloor>" by simp
  have "rat_of_int \<lfloor>x + 1 / 2\<rfloor> \<le> x + 1 / 2" and "x + 1 / 2 < rat_of_int \<lfloor>x + 1 / 2\<rfloor> + 1"
    by linarith+
  moreover have "rat_of_nat (nat \<lfloor>x + 1 / 2\<rfloor>) = rat_of_int \<lfloor>x + 1 / 2\<rfloor>"
    using f by simp
  ultimately have "rat_of_nat (nat \<lfloor>x + 1 / 2\<rfloor>) - 1 / 2 \<le> x"
    and "x < rat_of_nat (nat \<lfloor>x + 1 / 2\<rfloor>) + 1 / 2"
    by linarith+
  moreover have "tempoOf m = enat (nat \<lfloor>x + 1 / 2\<rfloor>)"
    using assms by (simp add: tempoOf_def math_round_def x_def)
  ultimately show ?thesis unfolding x_def by blast
qed

text \<open>
  Claim C7. Let the cursor of the event loop stand at the six bytes
  \<open>FF 51 03 b2 b1 b0\<close>, all of them inside the chunk, and let \<open>m\<close> be the big-endian
  value of \<open>b2 b1 b0\<close>. Then the pass consumes the six bytes, sets the tempo override to
  \<open>tempoOf m\<close>, that is \<open>Math.round(60000000 / m)\<close>, and the loop goes on; this is so
  in both revisions. For \<open>m > 0\<close> the tempo is the natural number \<open>k\<close> with
  \<open>k - 1/2 \<le> 60000000 / m < k + 1/2\<close>; it is 120 for 500000 and 150 for 400000.
  (For \<open>m = 0\<close> JavaScript's quotient is \<open>Infinity\<close>, and so is \<open>tempoOf 0\<close>.)
\<close>

theorem tempo_meta_event:
  assumes "take 6 (drop (position s) data) = [0xFF, 0x51, 0x03, b2, b1, b0]"
    and "position s + 6 \<le> endPos"
    and "m = unat b2 * 65536 + unat b1 * 256 + unat b0"
    and "s' = s\<lparr>position := position s + 6, track_tempo := Some (tempoOf m)\<rparr>"
  shows "mtrBody data endPos tick s = (True, s')
       \<and> mtrLoop data endPos tick s = mtrLoop data endPos tick s'
       \<and> mtrBody_lib data endPos s = (True, s')
       \<and> mtrLoop_lib data endPos s = mtrLoop_lib data endPos s'
       \<and> (m > 0 \<longrightarrow> (\<exists>k. tempoOf m = enat k \<and> rat_of_nat k - 1 / 2 \<le> 60000000 / rat_of_nat m
              \<and> 60000000 / rat_of_nat m < rat_of_nat k + 1 / 2))
       \<and> tempoOf 500000 = 120 \<and> tempoOf 400000 = 150"
proof -
  note bytes = byteAt_take_drop [OF assms(1)]
  have b0: "byteAt data (position s) = Some 0xFF" using bytes [of 0] by simp
  have b1: "byteAt data (Suc (position s)) = Some 0x51" using bytes [of 1] by simp
  have b2: "byteAt data (Suc (Suc (position s))) = Some 3" using bytes [of 2] by simp
  have b3: "byteAt data (Suc (Suc (Suc (position s)))) = Some (unat b2)"
    using bytes [of 3] by (simp add: numeral_eq_Suc)
  have b4: "byteAt data (Suc (Suc (Suc (Suc (position s))))) = Some (unat b1)"
    using bytes [of 4] by (simp add: numeral_eq_Suc)
  have b5: "byteAt data (Suc (Suc (Suc (Suc (Suc (position s)))))) = Some (unat b0)"
    using bytes [of 5] by (simp add: numeral_eq_Suc)
  have m: "push_bit 16 (unat b2) OR push_bit 8 (unat b1) OR unat b0 = m"
    using big_endian_24 [of "unat b2" "unat b1" "unat b0"]
      byteAt_bound [OF b3] byteAt_bound [OF b4] byteAt_bound [OF b5] assms(3)
    by simp
  have body: "mtrBody data endPos tick s = (True, s')"
    using assms(2) by (simp add: mtrBody_def readUInt8_def readUInt24BE_def toInt_def
        b0 b1 b2 b3 b4 b5 m assms(4))
  have body_lib: "mtrBody_lib data endPos s = (True, s')"
    by (simp add: mtrBody_lib_def readUInt8_def readUInt24BE_def toInt_def
        b0 b1 b2 b3 b4 b5 m assms(4))
  have c: "int (position s) < int endPos - 1" using assms(2) by simp
  show ?thesis
    using body body_lib mtrLoop_pass [OF c body] mtrLoop_lib_pass [OF c body_lib]
      tempoOf_rounds [of m]
    by (simp add: tempoOf_pos numeral_eq_enat)
qed

theorem tempo_meta_event_witness:
  "mtrBody track_example 26 (125 / 12)
     \<lparr>position = 12, currentTime = 250, track_notes = [], track_tempo = None\<rparr>
   = (True, \<lparr>position = 18, currentTime = 250, track_notes = [], track_tempo = Some 120\<rparr>)"
  using tempo_meta_event [of "\<lparr>position = 12, currentTime = 250, track_notes = [], track_tempo = None\<rparr>"
      track_example "0x07" "0xA1" "0x20" 26 500000
      "\<lparr>position = 18, currentTime = 250, track_notes = [], track_tempo = Some 120\<rparr>" "125 / 12"]
  by (simp add: track_example_def tempoOf_pos numeral_eq_enat)

text \<open>
  Claim C10. Let the event loop run a pass on a status byte from \<open>0xA0\<close> to \<open>0xAF\<close>.
  No branch of the body takes it: the pass consumes this one byte and changes nothing
  else, and the next pass takes the following byte as a status byte. In particular, when
  the two following bytes are below \<open>0x80\<close>, they are two delta-times and advance the
  running time. This is so in both revisions (the one of src/lib adds the ticks unscaled).
\<close>

theorem aftertouch_status_consumes_one_byte:
  assumes "int (position s) < int endPos - 1"
    and "byteAt data (position s) = Some st" and "0xA0 \<le> st" and "st \<le> 0xAF"
  shows "mtrBody data endPos tick s = (True, s\<lparr>position := position s + 1\<rparr>)
       \<and> mtrLoop data endPos tick s = mtrLoop data endPos tick (s\<lparr>position := position s + 1\<rparr>)
       \<and> mtrBody_lib data endPos s = (True, s\<lparr>position := position s + 1\<rparr>)
       \<and> mtrLoop_lib data endPos s = mtrLoop_lib data endPos (s\<lparr>position := position s + 1\<rparr>)
       \<and> (byteAt data (position s + 1) = Some d1 \<and> d1 < 0x80
            \<and> byteAt data (position s + 2) = Some d2 \<and> d2 < 0x80
            \<and> int (position s) + 2 < int endPos - 1 \<longrightarrow>
          mtrLoop data endPos tick s
            = mtrLoop data endPos tick
                (s\<lparr>position := position s + 3,
                   currentTime := currentTime s + rat_of_nat d1 * tick + rat_of_nat d2 * tick\<rparr>)
          \<and> mtrLoop_lib data endPos s
            = mtrLoop_lib data endPos
                (s\<lparr>position := position s + 3,
                   currentTime := currentTime s + rat_of_nat d1 + rat_of_nat d2\<rparr>))"
proof -
  have body: "mtrBody data endPos tick s = (True, s\<lparr>position := position s + 1\<rparr>)"
    using assms by (simp add: mtrBody_def readUInt8_def)
  have body_lib: "mtrBody_lib data endPos s = (True, s\<lparr>position := position s + 1\<rparr>)"
    using assms by (simp add: mtrBody_lib_def readUInt8_def)
  note l1 = mtrLoop_pass [OF assms(1) body]
  note l1_lib = mtrLoop_lib_pass [OF assms(1) body_lib]
  have rest: "mtrLoop data endPos tick s
            = mtrLoop data endPos tick
                (s\<lparr>position := position s + 3,
                   currentTime := currentTime s + rat_of_nat d1 * tick + rat_of_nat d2 * tick\<rparr>)
          \<and> mtrLoop_lib data endPos s
            = mtrLoop_lib data endPos
                (s\<lparr>position := position s + 3,
                   currentTime := currentTime s + rat_of_nat d1 + rat_of_nat d2\<rparr>)"
    if h: "byteAt data (position s + 1) = Some d1 \<and> d1 < 0x80
            \<and> byteAt data (position s + 2) = Some d2 \<and> d2 < 0x80
            \<and> int (position s) + 2 < int endPos - 1"
  proof -
    let ?s1 = "s\<lparr>position := position s + 1\<rparr>"
    let ?s2 = "s\<lparr>position := position s + 2, currentTime := currentTime s + rat_of_nat d1 * tick\<rparr>"
    let ?s3 = "s\<lparr>position := position s + 3,
                   currentTime := currentTime s + rat_of_nat d1 * tick + rat_of_nat d2 * tick\<rparr>"
    let ?t2 = "s\<lparr>position := position s + 2, currentTime := currentTime s + rat_of_nat d1\<rparr>"
    let ?t3 = "s\<lparr>position := position s + 3,
                   currentTime := currentTime s + rat_of_nat d1 + rat_of_nat d2\<rparr>"
    have c1: "int (position ?s1) < int endPos - 1" and c2: "int (position ?s2) < int endPos - 1"
      and c2': "int (position ?t2) < int endPos - 1"
      using h by simp_all
    have p1: "mtrBody data endPos tick ?s1 = (True, ?s2)"
      using h by (simp add: mtrBody_def readUInt8_def readVariableLength_small)
    have p2: "mtrBody data endPos tick ?s2 = (True, ?s3)"
      using h by (simp add: mtrBody_def readUInt8_def readVariableLength_small)
    have q1: "mtrBody_lib data endPos ?s1 = (True, ?t2)"
      using h by (simp add: mtrBody_lib_def readUInt8_def readVariableLength_small)
    have q2: "mtrBody_lib data endPos ?t2 = (True, ?t3)"
      using h by (simp add: mtrBody_lib_def readUInt8_def readVariableLength_small)
    show ?thesis
      using l1 mtrLoop_pass [OF c1 p1] mtrLoop_pass [OF c2 p2]
        l1_lib mtrLoop_lib_pass [OF c1 q1] mtrLoop_lib_pass [OF c2' q2]
      by simp
  qed
  show ?thesis using body body_lib l1 l1_lib rest by blast
qed

theorem aftertouch_status_consumes_one_byte_witness:
  "mtrLoop track_example 26 (125 / 12)
     \<lparr>position = 18, currentTime = 250, track_notes = [], track_tempo = Some 120\<rparr>
   = mtrLoop track_example 26 (125 / 12)
     \<lparr>position = 21, currentTime = 375, track_notes = [], track_tempo = Some 120\<rparr>"
proof -
  let ?s = "\<lparr>position = 18, currentTime = 250, track_notes = [], track_tempo = Some 120\<rparr>"
  have 1: "int (position ?s) < int 26 - 1" by simp
  have 2: "byteAt track_example (position ?s) = Some 160" "(0xA0::nat) \<le> 160" "(160::nat) \<le> 0xAF"
    by (simp_all add: track_example_def byteAt_def)
  have 3: "byteAt track_example (position ?s + 1) = Some 5 \<and> (5::nat) < 0x80
            \<and> byteAt track_example (position ?s + 2) = Some 7 \<and> (7::nat) < 0x80
            \<and> int (position ?s) + 2 < int 26 - 1"
    by (simp add: track_example_def byteAt_def)
  from aftertouch_status_consumes_one_byte [OF 1 2, of "125 / 12" 5 7] 3
  have "mtrLoop track_example 26 (125 / 12) ?s
      = mtrLoop track_example 26 (125 / 12)
          (?s\<lparr>position := position ?s + 3,
               currentTime := currentTime ?s + rat_of_nat 5 * (125 / 12) + rat_of_nat 7 * (125 / 12)\<rparr>)"
    by blast
  then show ?thesis by simp
qed


section \<open>The time between two notes\<close>

text \<open>
  To speak of the events between two notes, the passes of the event loop are counted.
  \<open>mtrIter k\<close> is the state of the loop after \<open>k\<close> passes that all ended in
  \<open>continue\<close>, and \<open>None\<close> when the loop has ended earlier. \<open>deltaTicks k\<close> lists
  the tick counts of the delta-time events among these \<open>k\<close> passes.
\<close>

fun mtrIter :: "nat \<Rightarrow> byte list \<Rightarrow> nat \<Rightarrow> rat \<Rightarrow> MTRState \<Rightarrow> MTRState option" where
  "mtrIter 0 data endPos tick s = Some s"
| "mtrIter (Suc k) data endPos tick s =
     (if int (position s) < int endPos - 1 then
        let (continue, s') = mtrBody data endPos tick s
        in if continue then mtrIter k data endPos tick s' else None
      else None)"

fun deltaTicks :: "nat \<Rightarrow> byte list \<Rightarrow> nat \<Rightarrow> rat \<Rightarrow> MTRState \<Rightarrow> nat list" where
  "deltaTicks 0 data endPos tick s = []"
| "deltaTicks (Suc k) data endPos tick s =
     (case deltaAt data s of None \<Rightarrow> [] | Some n \<Rightarrow> [n])
       @ deltaTicks k data endPos tick (snd (mtrBody data endPos tick s))"

lemma mtrIter_loop:
  "mtrIter k data endPos tick s = Some s' \<Longrightarrow>
     mtrLoop data endPos tick s = mtrLoop data endPos tick s'"
proof (induction k arbitrary: s)
  case 0
  then show ?case by simp
next
  case (Suc k)
  from Suc.prems obtain a where c: "int (position s) < int endPos - 1"
    and b: "mtrBody data endPos tick s = (True, a)"
    and r: "mtrIter k data endPos tick a = Some s'"
    by (auto split: if_splits prod.splits)
  from Suc.IH [OF r] mtrLoop_pass [OF c b] show ?case by simp
qed

lemma mtrIter_time:
  "mtrIter k data endPos tick s = Some s' \<Longrightarrow>
     currentTime s' = currentTime s + rat_of_nat (sum_list (deltaTicks k data endPos tick s)) * tick"
proof (induction k arbitrary: s)
  case 0
  then show ?case by simp
next
  case (Suc k)
  from Suc.prems obtain a where c: "int (position s) < int endPos - 1"
    and b: "mtrBody data endPos tick s = (True, a)"
    and r: "mtrIter k data endPos tick a = Some s'"
    by (auto split: if_splits prod.splits)
  have "sum_list (deltaTicks (Suc k) data endPos tick s)
      = toInt (deltaAt data s) + sum_list (deltaTicks k data endPos tick a)"
    using b by (simp add: toInt_def split: option.splits)
  then show ?case
    using Suc.IH [OF r] mtrBody_time [OF b] by (simp add: algebra_simps)
qed

lemma mtrIter_notes:
  "mtrIter k data endPos tick s = Some s' \<Longrightarrow> \<exists>ys. track_notes s' = track_notes s @ ys"
proof (induction k arbitrary: s)
  case 0
  then show ?case by simp
next
  case (Suc k)
  from Suc.prems obtain a where b: "mtrBody data endPos tick s = (True, a)"
    and r: "mtrIter k data endPos tick a = Some s'"
    by (auto split: if_splits prod.splits)
  from mtrBody_notes [OF b] Suc.IH [OF r] show ?case by auto
qed

lemma mtrLoop_notes: "\<exists>ys. track_notes (mtrLoop data endPos tick s) = track_notes s @ ys"
proof (induction data endPos tick s rule: mtrLoop.induct)
  case (1 data endPos tick s)
  show ?case
  proof (cases "int (position s) < int endPos - 1")
    case False
    then show ?thesis by (simp add: mtrLoop.simps)
  next
    case True
    obtain c s' where b: "mtrBody data endPos tick s = (c, s')" by fastforce
    note n = mtrBody_notes [OF b]
    show ?thesis
    proof (cases c)
      case True
      from 1 [OF \<open>int (position s) < int endPos - 1\<close> b [symmetric] refl True]
      obtain ys where "track_notes (mtrLoop data endPos tick s') = track_notes s' @ ys" by blast
      moreover have "mtrLoop data endPos tick s = mtrLoop data endPos tick s'"
        using mtrLoop_pass [OF \<open>int (position s) < int endPos - 1\<close>] b True by simp
      ultimately show ?thesis using n by auto
    next
      case False
      then have "mtrLoop data endPos tick s = s'"
        using b \<open>int (position s) < int endPos - 1\<close> by (subst mtrLoop.simps) simp
      then show ?thesis using n by auto
    qed
  qed
qed

text \<open>
  The time base in the revision of part_001. Take a track chunk whose sub-header is complete, with duration time base
  \<open>D\<close>, decoded by \<open>parseMTR\<close> (revision of part_001). Let the event loop reach a
  note-on that emits the note \<open>n1\<close> (state \<open>s1\<close>, after any number \<open>i\<close> of passes),
  and, \<open>k + 1\<close> passes later, a note-on that emits the note \<open>n2\<close> (state \<open>s2\<close>). If
  exactly one of the passes from \<open>s1\<close> to \<open>s2\<close> is a delta-time event, of \<open>N\<close>
  ticks, then the start time of \<open>n2\<close> is the start time of \<open>n1\<close> plus
  \<open>N * (500 / D)\<close> when \<open>D > 0\<close>, and plus \<open>N * 1\<close> when \<open>D = 0\<close>; and both notes
  are in the list that \<open>parseMTR\<close> returns, \<open>n1\<close> before \<open>n2\<close>. A pass emits a note
  when it appends one to \<open>track_notes\<close>, which only a note-on with a velocity above 0
  does. Times are exact rationals here; the source computes them in doubles.
\<close>

theorem delta_time_scaled:
  assumes "pos + 5 < chunk_offset chunk + chunk_size chunk"
    and "endPos = chunk_offset chunk + chunk_size chunk"
    and "byteAt data (pos + 2) = Some D"
    and "tick = tickDurationOf (Some D)"
    and "mtrIter i data endPos tick
           \<lparr>position = pos + 5, currentTime = 0, track_notes = [], track_tempo = None\<rparr> = Some s1"
    and "mtrBody data endPos tick s1 = (c1, a1)"
    and "track_notes a1 = track_notes s1 @ [n1]"
    and "mtrIter (Suc k) data endPos tick s1 = Some s2"
    and "deltaTicks (Suc k) data endPos tick s1 = [N]"
    and "int (position s2) < int endPos - 1"
    and "mtrBody data endPos tick s2 = (c2, a2)"
    and "track_notes a2 = track_notes s2 @ [n2]"
  shows "time n2 = time n1 + rat_of_nat N * (if D > 0 then 500 / rat_of_nat D else 1)
       \<and> (\<exists>xs ys zs. fst (fst (parseMTR data pos chunk)) = xs @ n1 # ys @ n2 # zs)"
proof -
  let ?s0 = "\<lparr>position = pos + 5, currentTime = 0, track_notes = [], track_tempo = None\<rparr>"
  have t1: "time n1 = currentTime s1"
    using mtrBody_notes [OF assms(6)] assms(7) by auto
  have t2: "time n2 = currentTime s2"
    using mtrBody_notes [OF assms(11)] assms(12) by auto
  have "currentTime s2 = currentTime s1 + rat_of_nat N * tick"
    using mtrIter_time [OF assms(8)] unfolding assms(9) by simp
  then have time: "time n2 = time n1 + rat_of_nat N * (if D > 0 then 500 / rat_of_nat D else 1)"
    using t1 t2 assms(4) by (simp add: tickDurationOf_def)
  from assms(8) have c: "c1" and r: "mtrIter k data endPos tick a1 = Some s2"
    using assms(6) by (auto split: if_splits)
  obtain ys where ys: "track_notes s2 = track_notes a1 @ ys"
    using mtrIter_notes [OF r] by blast
  have "mtrLoop data endPos tick ?s0 = mtrLoop data endPos tick s2"
    using mtrIter_loop [OF assms(5)] mtrIter_loop [OF assms(8)] by simp
  also have "\<dots> = (if c2 then mtrLoop data endPos tick a2 else a2)"
    using assms(10,11) by (subst mtrLoop.simps) simp
  finally have l: "mtrLoop data endPos tick ?s0 = (if c2 then mtrLoop data endPos tick a2 else a2)" .
  obtain zs where zs: "track_notes (mtrLoop data endPos tick ?s0) = track_notes a2 @ zs"
    using l mtrLoop_notes [of data endPos tick a2] by (cases c2) auto
  have "fst (fst (parseMTR data pos chunk)) = track_notes (mtrLoop data endPos tick ?s0)"
    using parseMTR_loop [OF assms(1), of data] assms(2,3,4) by (simp add: Let_def)
  then have "fst (fst (parseMTR data pos chunk)) = track_notes s1 @ n1 # ys @ n2 # zs"
    using zs ys assms(7,12) by simp
  then show ?thesis using time by blast
qed


theorem delta_time_scaled_witness:
  "time \<lparr>time = 250, note_no = 62, duration = 250, velocity = 90, channel = 1\<rparr>
     = time \<lparr>time = 0, note_no = 60, duration = 250, velocity = 100, channel = 0\<rparr>
       + rat_of_nat 24 * (if (48::nat) > 0 then 500 / rat_of_nat 48 else 1)
   \<and> (\<exists>xs ys zs.
         fst (fst (parseMTR track_example 0 \<lparr>chunk_type = [], chunk_size = 26, chunk_offset = 0\<rparr>))
         = xs @ \<lparr>time = 0, note_no = 60, duration = 250, velocity = 100, channel = 0\<rparr>
             # ys @ \<lparr>time = 250, note_no = 62, duration = 250, velocity = 90, channel = 1\<rparr>
             # zs)"
proof -
  let ?chunk = "\<lparr>chunk_type = [], chunk_size = 26, chunk_offset = 0\<rparr>"
  let ?n1 = "\<lparr>time = 0, note_no = 60, duration = 250, velocity = 100, channel = 0\<rparr>"
  let ?n2 = "\<lparr>time = 250, note_no = 62, duration = 250, velocity = 90, channel = 1\<rparr>"
  let ?s1 = "\<lparr>position = 0 + 5, currentTime = 0, track_notes = [], track_tempo = None\<rparr>"
  let ?a1 = "\<lparr>position = 8, currentTime = 0, track_notes = [?n1], track_tempo = None\<rparr>"
  let ?s2 = "\<lparr>position = 9, currentTime = 250, track_notes = [?n1], track_tempo = None\<rparr>"
  let ?a2 = "\<lparr>position = 12, currentTime = 250, track_notes = [?n1, ?n2], track_tempo = None\<rparr>"
  note defs = track_example_def readUInt8_def byteAt_def mtrBody_def readVariableLength_small
    DEFAULT_NOTE_DURATION_MS_def tickDurationOf_def deltaAt_def
  have 1: "0 + 5 < chunk_offset ?chunk + chunk_size ?chunk" by simp
  have 2: "26 = chunk_offset ?chunk + chunk_size ?chunk" by simp
  have 3: "byteAt track_example (0 + 2) = Some 48" by (simp add: defs)
  have 4: "125 / 12 = tickDurationOf (Some 48)" by (simp add: defs)
  have 5: "mtrIter 0 track_example 26 (125 / 12) ?s1 = Some ?s1" by simp
  have 6: "mtrBody track_example 26 (125 / 12) ?s1 = (True, ?a1)" by (simp add: defs)
  have 7: "track_notes ?a1 = track_notes ?s1 @ [?n1]" by simp
  have 8: "mtrIter (Suc (Suc 0)) track_example 26 (125 / 12) ?s1 = Some ?s2" by (simp add: defs)
  have 9: "deltaTicks (Suc (Suc 0)) track_example 26 (125 / 12) ?s1 = [24]" by (simp add: defs)
  have 10: "int (position ?s2) < int 26 - 1" by simp
  have 11: "mtrBody track_example 26 (125 / 12) ?s2 = (True, ?a2)" by (simp add: defs)
  have 12: "track_notes ?a2 = track_notes ?s2 @ [?n2]" by simp
  from delta_time_scaled [OF 1 2 3 4 5 6 7 8 9 10 11 12] show ?thesis .
qed


section \<open>The signature and the chunk loop\<close>

text \<open>
  Text of at most four code units that \<open>.replace(/\0/g, '').trim()\<close> turns into four
  code units was left as it is. So with the fallback \<open>String.fromCharCode\<close> the
  header test holds exactly for the bytes \<open>4D 4D 4D 44\<close>.
\<close>

lemma dropWhile_same_length: "length (dropWhile P xs) = length xs \<Longrightarrow> dropWhile P xs = xs"
  by (metis append_self_conv2 length_0_conv length_append add_cancel_right_left takeWhile_dropWhile_id)

lemma filter_same_length: "length (filter P xs) = length xs \<Longrightarrow> filter P xs = xs"
proof (induction xs)
  case Nil
  then show ?case by simp
next
  case (Cons a xs)
  show ?case
  proof (cases "P a")
    case True
    with Cons show ?thesis by simp
  next
    case False
    with Cons.prems have "length (filter P xs) = Suc (length xs)" by simp
    moreover have "length (filter P xs) \<le> length xs" by (rule length_filter_le)
    ultimately have False by linarith
    then show ?thesis ..
  qed
qed

lemma trim_length: "length (trim s) \<le> length s"
  unfolding trim_def
  by (metis length_dropWhile_le length_rev le_trans)

lemma trim_same_length: "length (trim s) = length s \<Longrightarrow> trim s = s"
proof -
  assume a: "length (trim s) = length s"
  have 1: "length (dropWhile isWhiteSpace (rev (dropWhile isWhiteSpace s))) \<le> length (dropWhile isWhiteSpace s)"
    by (metis length_dropWhile_le length_rev)
  have 2: "length (dropWhile isWhiteSpace s) \<le> length s" by (rule length_dropWhile_le)
  from a 1 2 have e: "length (dropWhile isWhiteSpace s) = length s" by (simp add: trim_def)
  then have d: "dropWhile isWhiteSpace s = s" by (rule dropWhile_same_length)
  from a have "length (dropWhile isWhiteSpace (rev s)) = length (rev s)" by (simp add: trim_def d)
  then have "dropWhile isWhiteSpace (rev s) = rev s" by (rule dropWhile_same_length)
  then show ?thesis by (simp add: trim_def d)
qed

lemma stripText_full_length:
  assumes "stripText s = t" and "length s \<le> length t"
  shows "s = t"
proof -
  let ?f = "filter (\<lambda>c. c \<noteq> 0) s"
  have "length t \<le> length ?f" using assms(1) trim_length [of ?f] by (auto simp: stripText_def)
  moreover have "length ?f \<le> length s" by simp
  moreover have "length (trim ?f) \<le> length ?f" by (rule trim_length)
  moreover have "length (trim ?f) = length t" using assms(1) by (simp add: stripText_def)
  ultimately have "length ?f = length s" and "length (trim ?f) = length ?f"
    using assms(2) by linarith+
  then have "?f = s" and "trim ?f = ?f" using filter_same_length trim_same_length by blast+
  then show ?thesis using assms(1) by (simp add: stripText_def)
qed

lemma fallback_signature:
  "stripText (decodeBytes None (take 4 data)) = js ''MMMD''
     \<longleftrightarrow> take 4 data = [0x4D, 0x4D, 0x4D, 0x44]"
proof
  assume "take 4 data = [0x4D, 0x4D, 0x4D, 0x44]"
  then show "stripText (decodeBytes None (take 4 data)) = js ''MMMD''"
    by (simp add: decodeBytes_def stripText_def trim_def isWhiteSpace_def js_def)
next
  assume a: "stripText (decodeBytes None (take 4 data)) = js ''MMMD''"
  have "length (decodeBytes None (take 4 data)) \<le> length (js ''MMMD'')"
    by (simp add: decodeBytes_def js_def)
  from stripText_full_length [OF a this]
  have m: "map unat (take 4 data) = [77, 77, 77, 68]"
    by (simp add: decodeBytes_def js_def)
  then have "map (word_of_nat :: nat \<Rightarrow> byte) (map unat (take 4 data)) = map word_of_nat [77, 77, 77, 68]"
    by simp
  then show "take 4 data = [0x4D, 0x4D, 0x4D, 0x44]"
    by (simp add: comp_def)
qed

text \<open>
  \<open>readChunkHeader\<close> takes the chunk type from \<open>readString\<close>, which trims it. The
  \<open>case\<close> labels \<open>'MTR '\<close> and \<open>'Mtr '\<close> end in a space, so no chunk type equals
  them. The \<open>parse\<close> of part_001 therefore never calls \<open>parseMTR\<close>: it returns no
  notes and the tempo 120, and none of its spread calls gets an argument. In
  \<^verbatim>\<open>src/lib/mmf-parser.ts\<close> the label \<open>'OPDA'\<close> leads to \<open>parseMTR\<close>.
\<close>

lemma trim_last: "trim s \<noteq> [] \<Longrightarrow> \<not> isWhiteSpace (last (trim s))"
proof -
  let ?d = "dropWhile isWhiteSpace (rev (dropWhile isWhiteSpace s))"
  assume "trim s \<noteq> []"
  then have "?d \<noteq> []" by (simp add: trim_def)
  then have "\<not> isWhiteSpace (hd ?d)" by (rule hd_dropWhile)
  moreover have "last (trim s) = hd ?d"
    using \<open>?d \<noteq> []\<close> by (simp add: trim_def last_rev)
  ultimately show ?thesis by simp
qed

lemma readString_no_final_space: "fst (readString dec data pos len) \<noteq> t @ [32]"
proof
  assume a: "fst (readString dec data pos len) = t @ [32]"
  then obtain u where u: "trim u = t @ [32]" by (auto simp: readString_def stripText_def)
  then have "\<not> isWhiteSpace (last (trim u))" using trim_last [of u] by simp
  with u show False by (simp add: isWhiteSpace_def)
qed

lemma chunk_type_no_final_space:
  assumes "readChunkHeader dec data pos = Some (chunk, p)"
  shows "chunk_type chunk \<noteq> js ''MTR '' \<and> chunk_type chunk \<noteq> js ''Mtr ''"
proof -
  have "chunk_type chunk = fst (readString dec data pos 4)"
    using assms by (auto simp: readChunkHeader_def Let_def split: if_splits prod.splits)
  moreover have "js ''MTR '' = js ''MTR'' @ [32]" and "js ''Mtr '' = js ''Mtr'' @ [32]"
    by (simp_all add: js_def)
  ultimately show ?thesis using readString_no_final_space by metis
qed

lemma parseChunks_no_track:
  "\<exists>md'. parseChunks argLimit dec data pos (md, ns, tp) = Inr (md', ns, tp)"
proof (induction argLimit dec data pos "(md, ns, tp)" arbitrary: md
    rule: parseChunks.induct)
  case (1 argLimit dec data pos)
  show ?case
  proof (cases "int pos < int (length data) - 8")
    case False
    then show ?thesis by (simp add: parseChunks.simps)
  next
    case True
    then obtain chunk where h: "readChunkHeader dec data pos = Some (chunk, pos + 8)"
      by (auto simp: readChunkHeader_def readString_def readUInt32BE_def)
    note t = chunk_type_no_final_space [OF h]
    show ?thesis
    proof (cases "chunk_type chunk = js ''CNTI'' \<or> chunk_type chunk = js ''OPDA''")
      case c: True
      obtain parsed p' where pc: "parseCNTI dec data (pos + 8) chunk = (parsed, p')"
        by fastforce
      have "parseChunks argLimit dec data pos (md, ns, tp)
          = parseChunks argLimit dec data p' (assignMetadata md parsed, ns, tp)"
        using True h c pc by (subst parseChunks.simps) auto
      with 1(1) [OF True h refl refl refl c pc [symmetric] refl]
      show ?thesis by simp
    next
      case c: False
      have "parseChunks argLimit dec data pos (md, ns, tp)
          = parseChunks argLimit dec data (chunk_offset chunk + chunk_size chunk) (md, ns, tp)"
        using True h c t by (subst parseChunks.simps) auto
      with 1(3) [OF True h refl refl refl c] t
      show ?thesis by simp
    qed
  qed
qed

lemma parse_finds_no_notes:
  assumes "stripText (decodeBytes dec (take 4 data)) = js ''MMMD''"
  shows "\<exists>md. parse argLimit dec data
           = Inr \<lparr>metadata = md, note_list = [], total_duration = 0, tempo = 120\<rparr>"
proof -
  obtain md where "parseChunks argLimit dec data 8 (emptyMetadata, [], 120) = Inr (md, [], 120)"
    using parseChunks_no_track by blast
  then show ?thesis
    using assms by (simp add: parse_def verifyHeader_def readString_def readUInt32BE_def)
qed

text \<open>
  The chunk loop of \<^verbatim>\<open>src/lib/mmf-parser.ts\<close> throws nothing but the \<open>RangeError\<close>
  of a spread call, and in both revisions \<open>parse\<close> fails with \<open>InvalidFormat\<close> exactly
  when the first four bytes do not decode to \<open>MMMD\<close>.
\<close>

lemma parseChunks_lib_error:
  "parseChunks_lib argLimit dec data pos acc = Inl e \<Longrightarrow> e = RangeError"
proof (induction argLimit dec data pos acc rule: parseChunks_lib.induct)
  case (1 argLimit dec data pos acc)
  obtain md ns tp where acc: "acc = (md, ns, tp)" by (cases acc) auto
  show ?case
  proof (cases "int pos < int (length data) - 8")
    case False
    with 1(4) show ?thesis by (simp add: parseChunks_lib.simps)
  next
    case True
    then obtain chunk where h: "readChunkHeader dec data pos = Some (chunk, pos + 8)"
      by (auto simp: readChunkHeader_def readString_def readUInt32BE_def)
    show ?thesis
    proof (cases "chunk_type chunk = js ''CNTI''")
      case c: True
      obtain parsed p' where pc: "parseCNTI dec data (pos + 8) chunk = (parsed, p')"
        by fastforce
      have "parseChunks_lib argLimit dec data pos acc
          = parseChunks_lib argLimit dec data p' (assignMetadata md parsed, ns, tp)"
        using True h c pc acc by (subst parseChunks_lib.simps) auto
      with 1(1) [OF True h refl acc [symmetric] refl c refl pc [symmetric]] 1(4)
      show ?thesis by simp
    next
      case c: False
      show ?thesis
      proof (cases "chunk_type chunk = js ''MTR '' \<or> chunk_type chunk = js ''Mtr ''
                       \<or> chunk_type chunk = js ''OPDA''")
        case t: True
        obtain trackData p' where pm: "parseMTR_lib data (pos + 8) chunk = (trackData, p')"
          by fastforce
        show ?thesis
        proof (cases "pushSpread argLimit ns (fst trackData)")
          case (Inl x)
          then have "parseChunks_lib argLimit dec data pos acc = Inl x"
            using True h c t pm acc by (subst parseChunks_lib.simps) auto
          moreover have "x = RangeError"
            using Inl by (simp add: pushSpread_def split: if_splits)
          ultimately show ?thesis using 1(4) by simp
        next
          case (Inr ns')
          then have "parseChunks_lib argLimit dec data pos acc
              = parseChunks_lib argLimit dec data p' (md, ns', updateTempo tp (snd trackData))"
            using True h c t pm acc by (subst parseChunks_lib.simps) auto
          with 1(2) [OF True h refl acc [symmetric] refl c t refl pm [symmetric] Inr] 1(4)
          show ?thesis by simp
        qed
      next
        case t: False
        have "parseChunks_lib argLimit dec data pos acc
            = parseChunks_lib argLimit dec data (chunk_offset chunk + chunk_size chunk) acc"
          using True h c t acc by (subst parseChunks_lib.simps) auto
        with 1(3) [OF True h refl acc [symmetric] refl c t] 1(4)
        show ?thesis by simp
      qed
    qed
  qed
qed

lemma parse_invalid_format_iff:
  "(parse argLimit dec data = Inl InvalidFormat
      \<longleftrightarrow> stripText (decodeBytes dec (take 4 data)) \<noteq> js ''MMMD'')
   \<and> (parse_lib argLimit dec data = Inl InvalidFormat
      \<longleftrightarrow> stripText (decodeBytes dec (take 4 data)) \<noteq> js ''MMMD'')"
proof
  show "parse argLimit dec data = Inl InvalidFormat
      \<longleftrightarrow> stripText (decodeBytes dec (take 4 data)) \<noteq> js ''MMMD''"
    using parse_finds_no_notes [of dec data argLimit]
    by (auto simp: parse_def verifyHeader_def readString_def)
next
  show "parse_lib argLimit dec data = Inl InvalidFormat
      \<longleftrightarrow> stripText (decodeBytes dec (take 4 data)) \<noteq> js ''MMMD''"
    by (auto simp: parse_lib_def verifyHeader_def readString_def readUInt32BE_def
          maxSpread_def
        split: sum.splits prod.splits if_splits dest: parseChunks_lib_error)
qed

text \<open>
  Two files for the examples: a file with one \<open>CNTI\<close> chunk that holds the title
  \<open>Test\<close>, and a file whose only chunk header occupies the last eight bytes.
\<close>

definition file_example :: "byte list" where
  "file_example =
     [0x4D, 0x4D, 0x4D, 0x44, 0, 0, 0, 14,
      0x43, 0x4E, 0x54, 0x49, 0, 0, 0, 6, 0, 4, 0x54, 0x65, 0x73, 0x74]"

definition eight_left_example :: "byte list" where
  "eight_left_example =
     [0x4D, 0x4D, 0x4D, 0x44, 0, 0, 0, 8, 0x43, 0x4E, 0x54, 0x49, 0, 0, 0, 0]"

lemmas parse_eval_defs = verifyHeader_def readString_def decodeBytes_def
  stripText_def trim_def isWhiteSpace_def js_def readUInt32BE_def byteAt_def toInt_def
  readChunkHeader_def parseCNTI_def cntiLoop.simps readUInt8_def
  storeContent_def assignMetadata_def emptyMetadata_def pushSpread_def maxSpread_def

text \<open>
  Claim C6 as stated does not hold: the loop condition is
  \<open>this.position < this.data.length - 8\<close>, and \<open>readChunkHeader\<close> returns \<open>null\<close>
  when \<open>this.position >= this.data.length - 8\<close>. With exactly eight bytes left, no
  header is read and the loop ends. The file \<open>eight_left_example\<close> has sixteen bytes and
  a \<open>CNTI\<close> header with size 0 at position 8.
\<close>

theorem header_in_last_8_bytes_not_read:
  "8 + 8 \<le> length eight_left_example
   \<and> readChunkHeader None eight_left_example 8 = None
   \<and> parseChunks 65536 None eight_left_example 8 (emptyMetadata, [], 120)
       = Inr (emptyMetadata, [], 120)
   \<and> parseChunks_lib 65536 None eight_left_example 8 (emptyMetadata, [], 120)
       = Inr (emptyMetadata, [], 120)"
  by (simp add: eight_left_example_def readChunkHeader_def parseChunks.simps
        parseChunks_lib.simps)

text \<open>
  Claim C6, amended. \<open>readChunkHeader\<close> reads a header exactly when more than eight
  bytes remain after the cursor (the header and at least one more byte). The chunk loop
  of \<open>parse\<close> ends, with its results as they are, when eight bytes or fewer remain.
  When more than eight remain, it reads the header at the cursor (type from the four
  bytes at \<open>pos\<close>, size from the four bytes at \<open>pos + 4\<close>, payload from \<open>pos + 8\<close>),
  runs the handler that the \<open>switch\<close> selects for the type, and goes on at the chunk's
  declared end \<open>pos + 8 + size\<close> with what the handler found. These equations hold of
  no other loop: they fix its result for every buffer and cursor. Both revisions.
\<close>

theorem chunk_loop_needs_nine_bytes:
  "(readChunkHeader dec data pos = None \<longleftrightarrow> length data \<le> pos + 8)
   \<and> (length data \<le> pos + 8 \<longrightarrow>
        parseChunks argLimit dec data pos acc = Inr acc
        \<and> parseChunks_lib argLimit dec data pos acc = Inr acc)
   \<and> (pos + 8 < length data \<longrightarrow>
        (let chunk = \<lparr>chunk_type = fst (readString dec data pos 4),
                      chunk_size = fst (readUInt32BE data (pos + 4)),
                      chunk_offset = pos + 8\<rparr>;
             endPos = pos + 8 + chunk_size chunk
         in readChunkHeader dec data pos = Some (chunk, pos + 8)
            \<and> parseChunks argLimit dec data pos (md, ns, tp)
              = (if chunk_type chunk = js ''CNTI'' \<or> chunk_type chunk = js ''OPDA'' then
                   parseChunks argLimit dec data endPos
                     (assignMetadata md (fst (parseCNTI dec data (pos + 8) chunk)), ns, tp)
                 else if chunk_type chunk = js ''MTR '' \<or> chunk_type chunk = js ''Mtr '' then
                   (case pushSpread argLimit ns (fst (fst (parseMTR data (pos + 8) chunk))) of
                      Inl e \<Rightarrow> Inl e
                    | Inr ns' \<Rightarrow>
                        parseChunks argLimit dec data endPos
                          (md, ns', updateTempo tp (snd (fst (parseMTR data (pos + 8) chunk)))))
                 else parseChunks argLimit dec data endPos (md, ns, tp))
            \<and> parseChunks_lib argLimit dec data pos (md, ns, tp)
              = (if chunk_type chunk = js ''CNTI'' then
                   parseChunks_lib argLimit dec data endPos
                     (assignMetadata md (fst (parseCNTI dec data (pos + 8) chunk)), ns, tp)
                 else if chunk_type chunk = js ''MTR '' \<or> chunk_type chunk = js ''Mtr ''
                         \<or> chunk_type chunk = js ''OPDA'' then
                   (case pushSpread argLimit ns (fst (fst (parseMTR_lib data (pos + 8) chunk))) of
                      Inl e \<Rightarrow> Inl e
                    | Inr ns' \<Rightarrow>
                        parseChunks_lib argLimit dec data endPos
                          (md, ns',
                           updateTempo tp (snd (fst (parseMTR_lib data (pos + 8) chunk)))))
                 else parseChunks_lib argLimit dec data endPos (md, ns, tp))))"
proof (intro conjI impI)
  show "readChunkHeader dec data pos = None \<longleftrightarrow> length data \<le> pos + 8"
    by (auto simp: readChunkHeader_def readString_def readUInt32BE_def)
next
  assume "length data \<le> pos + 8"
  then show "parseChunks argLimit dec data pos acc = Inr acc"
    by (simp add: parseChunks.simps)
next
  assume "length data \<le> pos + 8"
  then show "parseChunks_lib argLimit dec data pos acc = Inr acc"
    by (simp add: parseChunks_lib.simps)
next
  assume a: "pos + 8 < length data"
  define chunk where "chunk = \<lparr>chunk_type = fst (readString dec data pos 4),
                      chunk_size = fst (readUInt32BE data (pos + 4)),
                      chunk_offset = pos + 8\<rparr>"
  have h: "readChunkHeader dec data pos = Some (chunk, pos + 8)"
    using a by (simp add: readChunkHeader_def readString_def readUInt32BE_def chunk_def)
  have o: "chunk_offset chunk + chunk_size chunk = pos + 8 + chunk_size chunk"
    by (simp add: chunk_def)
  have c: "snd (parseCNTI dec data (pos + 8) chunk) = pos + 8 + chunk_size chunk"
    by (simp add: parseCNTI_def Let_def o)
  have m: "snd (parseMTR data (pos + 8) chunk) = pos + 8 + chunk_size chunk"
    using parseMTR_position [of data "pos + 8" chunk] o
    by (cases "parseMTR data (pos + 8) chunk") simp
  have ml: "snd (parseMTR_lib data (pos + 8) chunk) = pos + 8 + chunk_size chunk"
    by (simp add: parseMTR_lib_def Let_def o)
  have 1: "parseChunks argLimit dec data pos (md, ns, tp)
              = (if chunk_type chunk = js ''CNTI'' \<or> chunk_type chunk = js ''OPDA'' then
                   parseChunks argLimit dec data (pos + 8 + chunk_size chunk)
                     (assignMetadata md (fst (parseCNTI dec data (pos + 8) chunk)), ns, tp)
                 else if chunk_type chunk = js ''MTR '' \<or> chunk_type chunk = js ''Mtr '' then
                   (case pushSpread argLimit ns (fst (fst (parseMTR data (pos + 8) chunk))) of
                      Inl e \<Rightarrow> Inl e
                    | Inr ns' \<Rightarrow>
                        parseChunks argLimit dec data (pos + 8 + chunk_size chunk)
                          (md, ns', updateTempo tp (snd (fst (parseMTR data (pos + 8) chunk)))))
                 else parseChunks argLimit dec data (pos + 8 + chunk_size chunk) (md, ns, tp))"
    using a h c m o
    by (subst parseChunks.simps) (simp add: split_beta cong: sum.case_cong)
  have 2: "parseChunks_lib argLimit dec data pos (md, ns, tp)
              = (if chunk_type chunk = js ''CNTI'' then
                   parseChunks_lib argLimit dec data (pos + 8 + chunk_size chunk)
                     (assignMetadata md (fst (parseCNTI dec data (pos + 8) chunk)), ns, tp)
                 else if chunk_type chunk = js ''MTR '' \<or> chunk_type chunk = js ''Mtr ''
                         \<or> chunk_type chunk = js ''OPDA'' then
                   (case pushSpread argLimit ns (fst (fst (parseMTR_lib data (pos + 8) chunk))) of
                      Inl e \<Rightarrow> Inl e
                    | Inr ns' \<Rightarrow>
                        parseChunks_lib argLimit dec data (pos + 8 + chunk_size chunk)
                          (md, ns',
                           updateTempo tp (snd (fst (parseMTR_lib data (pos + 8) chunk)))))
                 else parseChunks_lib argLimit dec data (pos + 8 + chunk_size chunk) (md, ns, tp))"
    using a h c ml o
    by (subst parseChunks_lib.simps) (simp add: split_beta cong: sum.case_cong)
  show "let chunk = \<lparr>chunk_type = fst (readString dec data pos 4),
                      chunk_size = fst (readUInt32BE data (pos + 4)),
                      chunk_offset = pos + 8\<rparr>;
             endPos = pos + 8 + chunk_size chunk
         in readChunkHeader dec data pos = Some (chunk, pos + 8)
            \<and> parseChunks argLimit dec data pos (md, ns, tp)
              = (if chunk_type chunk = js ''CNTI'' \<or> chunk_type chunk = js ''OPDA'' then
                   parseChunks argLimit dec data endPos
                     (assignMetadata md (fst (parseCNTI dec data (pos + 8) chunk)), ns, tp)
                 else if chunk_type chunk = js ''MTR '' \<or> chunk_type chunk = js ''Mtr '' then
                   (case pushSpread argLimit ns (fst (fst (parseMTR data (pos + 8) chunk))) of
                      Inl e \<Rightarrow> Inl e
                    | Inr ns' \<Rightarrow>
                        parseChunks argLimit dec data endPos
                          (md, ns', updateTempo tp (snd (fst (parseMTR data (pos + 8) chunk)))))
                 else parseChunks argLimit dec data endPos (md, ns, tp))
            \<and> parseChunks_lib argLimit dec data pos (md, ns, tp)
              = (if chunk_type chunk = js ''CNTI'' then
                   parseChunks_lib argLimit dec data endPos
                     (assignMetadata md (fst (parseCNTI dec data (pos + 8) chunk)), ns, tp)
                 else if chunk_type chunk = js ''MTR '' \<or> chunk_type chunk = js ''Mtr ''
                         \<or> chunk_type chunk = js ''OPDA'' then
                   (case pushSpread argLimit ns (fst (fst (parseMTR_lib data (pos + 8) chunk))) of
                      Inl e \<Rightarrow> Inl e
                    | Inr ns' \<Rightarrow>
                        parseChunks_lib argLimit dec data endPos
                          (md, ns',
                           updateTempo tp (snd (fst (parseMTR_lib data (pos + 8) chunk)))))
                 else parseChunks_lib argLimit dec data endPos (md, ns, tp))"
    unfolding Let_def chunk_def [symmetric] using h 1 2 by simp
qed

theorem chunk_loop_needs_nine_bytes_witness:
  "parseChunks 65536 None file_example 8 (emptyMetadata, [], 120)
     = Inr (\<lparr>title = Some (js ''Test''), composer = None, arranger = None,
              copyright = None\<rparr>, [], 120)
   \<and> parseChunks_lib 65536 None file_example 8 (emptyMetadata, [], 120)
     = Inr (\<lparr>title = Some (js ''Test''), composer = None, arranger = None,
              copyright = None\<rparr>, [], 120)
   \<and> readChunkHeader None eight_left_example 8 = None
   \<and> parseChunks 65536 None eight_left_example 8 (emptyMetadata, [], 120)
     = Inr (emptyMetadata, [], 120)"
  using chunk_loop_needs_nine_bytes
      [of None file_example 8 65536 "(emptyMetadata, [], 120)" emptyMetadata "[]" 120]
    chunk_loop_needs_nine_bytes
      [of None file_example 22 65536
        "(\<lparr>title = Some (js ''Test''), composer = None, arranger = None,
            copyright = None\<rparr>, [], 120)" emptyMetadata "[]" 120]
    chunk_loop_needs_nine_bytes
      [of None eight_left_example 8 65536 "(emptyMetadata, [], 120)" emptyMetadata "[]" 120]
  by (simp add: file_example_def eight_left_example_def parse_eval_defs)

section \<open>Whole files in the parser of src/lib/mmf-parser.ts\<close>

text \<open>
  In \<^verbatim>\<open>src/lib/mmf-parser.ts\<close>, the module that the user interface imports, a chunk
  with the type \<open>OPDA\<close> goes to \<open>parseMTR\<close>. The files of this section have the
  signature, the size field and one such chunk.
\<close>

subsection \<open>A track with more notes than a call takes arguments\<close>

text \<open>\<open>note_ons n\<close> is the event stream of \<open>n\<close> note-on events \<open>90 3C 64\<close>.\<close>

definition note_ons :: "nat \<Rightarrow> byte list" where
  "note_ons n = concat (replicate n [0x90, 60, 100])"

lemma length_note_ons [simp]: "length (note_ons n) = 3 * n"
  by (induction n) (simp_all add: note_ons_def)

lemma note_ons_Suc: "note_ons (Suc n) = [0x90, 60, 100] @ note_ons n"
  by (simp add: note_ons_def)

lemma note_ons_nth:
  "k < n \<Longrightarrow> note_ons n ! (3 * k) = 0x90 \<and> note_ons n ! (3 * k + 1) = 60
     \<and> note_ons n ! (3 * k + 2) = 100"
proof (induction k arbitrary: n)
  case 0
  then obtain m where "n = Suc m" by (cases n) auto
  then show ?case by (simp add: note_ons_Suc)
next
  case (Suc k)
  then obtain m where n: "n = Suc m" and "k < m" by (cases n) auto
  from Suc.IH [OF \<open>k < m\<close>] show ?case
    by (simp add: n note_ons_Suc nth_append numeral_eq_Suc)
qed

lemma byteAt_note_ons:
  assumes "k < n"
  shows "byteAt (pre @ note_ons n) (length pre + 3 * k) = Some 144"
    and "byteAt (pre @ note_ons n) (Suc (length pre + 3 * k)) = Some 60"
    and "byteAt (pre @ note_ons n) (Suc (Suc (length pre + 3 * k))) = Some 100"
  using note_ons_nth [OF assms] assms
  by (simp_all add: byteAt_def nth_append)

definition note_on_example :: MMFNote where
  "note_on_example =
     \<lparr>time = 0, note_no = 60, duration = 250, velocity = 100, channel = 0\<rparr>"

lemma mtrLoop_lib_note_ons:
  assumes "k \<le> n"
  shows "mtrLoop_lib (pre @ note_ons n) (length pre + 3 * n)
           \<lparr>position = length pre + 3 * k, currentTime = 0, track_notes = ns,
            track_tempo = None\<rparr>
       = \<lparr>position = length pre + 3 * n, currentTime = 0,
          track_notes = ns @ replicate (n - k) note_on_example, track_tempo = None\<rparr>"
  using assms
proof (induction "n - k" arbitrary: k ns)
  case 0
  then have "k = n" by simp
  then show ?case by (simp add: mtrLoop_lib.simps)
next
  case (Suc d)
  then have k: "k < n" and d: "d = n - Suc k" and le: "Suc k \<le> n" by auto
  let ?s = "\<lparr>position = length pre + 3 * k, currentTime = 0, track_notes = ns,
            track_tempo = None\<rparr>"
  let ?s' = "\<lparr>position = length pre + 3 * Suc k, currentTime = 0,
            track_notes = ns @ [note_on_example], track_tempo = None\<rparr>"
  have c: "int (position ?s) < int (length pre + 3 * n) - 1" using k by simp
  have b: "mtrBody_lib (pre @ note_ons n) (length pre + 3 * n) ?s = (True, ?s')"
    by (simp add: mtrBody_lib_def readUInt8_def byteAt_note_ons [OF k] note_on_example_def
          DEFAULT_NOTE_DURATION_MS_def)
  have "n - k = Suc (n - Suc k)" using k by simp
  then have r: "replicate (n - k) note_on_example
      = note_on_example # replicate (n - Suc k) note_on_example" by simp
  show ?case
    using mtrLoop_lib_pass [OF c b] Suc.hyps(1) [OF d le, of "ns @ [note_on_example]"]
    by (simp add: r)
qed

text \<open>
  A file of 1500019 bytes: the signature, the size field, and one \<open>OPDA\<close> chunk of
  declared size 1500003 that holds 500001 note-on events.
\<close>

definition large_file :: "byte list" where
  "large_file =
     [0x4D, 0x4D, 0x4D, 0x44, 0x00, 0x16, 0xE3, 0x6B,
      0x4F, 0x50, 0x44, 0x41, 0x00, 0x16, 0xE3, 0x63] @ note_ons 500001"

lemma large_file_header:
  "verifyHeader None large_file 0 = (True, 4)"
  "readChunkHeader None large_file 8
     = Some (\<lparr>chunk_type = js ''OPDA'', chunk_size = 1500003, chunk_offset = 16\<rparr>, 16)"
  "length large_file = 1500019"
  by (simp_all add: large_file_def verifyHeader_def readChunkHeader_def readString_def
        decodeBytes_def stripText_def trim_def isWhiteSpace_def js_def readUInt32BE_def
        byteAt_def toInt_def nth_append)

lemma large_file_track:
  "parseMTR_lib large_file 16 \<lparr>chunk_type = ty, chunk_size = 1500003, chunk_offset = 16\<rparr>
     = ((replicate 500001 note_on_example, None), 1500019)"
proof -
  let ?pre = "[0x4D, 0x4D, 0x4D, 0x44, 0x00, 0x16, 0xE3, 0x6B,
      0x4F, 0x50, 0x44, 0x41, 0x00, 0x16, 0xE3, 0x63] :: byte list"
  have l: "length ?pre = 16" by simp
  have "mtrLoop_lib (?pre @ note_ons 500001) 1500019
           \<lparr>position = 16, currentTime = 0, track_notes = [], track_tempo = None\<rparr>
       = \<lparr>position = 1500019, currentTime = 0,
          track_notes = replicate 500001 note_on_example, track_tempo = None\<rparr>"
    using mtrLoop_lib_note_ons [of 0 500001 ?pre "[]"] unfolding l by simp
  then show ?thesis
    by (simp add: parseMTR_lib_def large_file_def Let_def)
qed

text \<open>
  Claim C5 on the code. The signature of \<open>large_file\<close> is valid, and yet the \<open>parse\<close>
  of \<^verbatim>\<open>src/lib/mmf-parser.ts\<close> does not return a document: its track has 500001
  notes, and \<open>notes.push(...trackData.notes)\<close> passes each of them as an argument.
  With a bound of 500000 arguments, and with any lower one such as 65536, the call
  throws a \<open>RangeError\<close>, which nothing in \<open>parse\<close> catches.
\<close>

theorem parse_lib_large_track_throws:
  "verifyHeader None large_file 0 = (True, 4)
   \<and> parse_lib 500000 None large_file = Inl RangeError
   \<and> parse_lib 65536 None large_file = Inl RangeError"
proof -
  have "parseChunks_lib L None large_file 8 (emptyMetadata, [], 120) = Inl RangeError"
    if "L < 500001" for L
    using that
    by (subst parseChunks_lib.simps)
       (simp add: large_file_header large_file_track pushSpread_def js_def)
  then show ?thesis
    by (simp add: parse_lib_def large_file_header readUInt32BE_def)
qed

subsection \<open>The sub-header and the time base\<close>

text \<open>
  Three files with one \<open>OPDA\<close> chunk each: the track of \<open>track_example\<close> (duration
  time base 48, two note-on events 24 ticks apart); a chunk of four bytes, too short for
  a sub-header, whose bytes are \<open>90 3C 64 00\<close>; and a chunk of eight bytes whose
  sub-header is \<open>90 3C 64 30 00\<close>, followed by three zero bytes.
\<close>

definition track_file :: "byte list" where
  "track_file =
     [0x4D, 0x4D, 0x4D, 0x44, 0, 0, 0, 34, 0x4F, 0x50, 0x44, 0x41, 0, 0, 0, 26,
      0, 0, 48, 48, 0, 0x90, 60, 100, 24, 0x91, 62, 90, 0xFF, 0x51, 3, 0x07, 0xA1, 0x20,
      0xA0, 5, 7, 0x90, 64, 1, 0, 0]"

definition short_file :: "byte list" where
  "short_file =
     [0x4D, 0x4D, 0x4D, 0x44, 0, 0, 0, 12, 0x4F, 0x50, 0x44, 0x41, 0, 0, 0, 4,
      0x90, 60, 100, 0]"

definition subheader_file :: "byte list" where
  "subheader_file =
     [0x4D, 0x4D, 0x4D, 0x44, 0, 0, 0, 16, 0x4F, 0x50, 0x44, 0x41, 0, 0, 0, 8,
      0x90, 60, 100, 48, 0, 0, 0, 0]"

lemmas parse_lib_eval_defs = parse_lib_def verifyHeader_def readString_def decodeBytes_def
  stripText_def trim_def isWhiteSpace_def js_def readUInt32BE_def byteAt_def toInt_def
  parseChunks_lib.simps readChunkHeader_def pushSpread_def maxSpread_def
  parseMTR_lib_def mtrLoop_lib.simps mtrBody_lib_def readUInt8_def readVariableLength_small
  readUInt24BE_def tempoOf_pos DEFAULT_NOTE_DURATION_MS_def numeral_eq_enat updateTempo_def
  emptyMetadata_def

text \<open>
  Claim C2 on the code. The \<open>parseMTR\<close> of \<^verbatim>\<open>src/lib/mmf-parser.ts\<close> has no time
  base: \<open>currentTime += this.readVariableLength(status)\<close> counts every tick as one
  millisecond. On \<open>track_file\<close>, with the byte 48 where the duration time base is and a
  delta-time of 24 ticks between the first two note-on events, \<open>parse\<close> puts the two
  notes at 96 ms and 120 ms, 24 ms apart, where \<open>24 * (500 / 48) = 250\<close> ms are due.
  The \<open>parseMTR\<close> of part_001 gives 0 ms and 250 ms on the same chunk (and for every
  chunk, by \<open>delta_time_scaled\<close>).
\<close>

theorem parse_lib_adds_ticks_unscaled:
  "parse_lib 65536 None track_file
     = Inr \<lparr>metadata = emptyMetadata,
            note_list =
              [\<lparr>time = 96, note_no = 60, duration = 250, velocity = 100, channel = 0\<rparr>,
               \<lparr>time = 120, note_no = 62, duration = 250, velocity = 90, channel = 1\<rparr>,
               \<lparr>time = 132, note_no = 64, duration = 250, velocity = 1, channel = 0\<rparr>],
            total_duration = 382, tempo = 120\<rparr>
   \<and> (120 :: rat) \<noteq> 96 + 24 * (500 / 48)
   \<and> fst (parseMTR track_file 16 \<lparr>chunk_type = js ''OPDA'', chunk_size = 26, chunk_offset = 16\<rparr>)
     = ([\<lparr>time = 0, note_no = 60, duration = 250, velocity = 100, channel = 0\<rparr>,
         \<lparr>time = 250, note_no = 62, duration = 250, velocity = 90, channel = 1\<rparr>,
         \<lparr>time = 375, note_no = 64, duration = 250, velocity = 1, channel = 0\<rparr>], Some 120)"
  by (simp add: track_file_def parse_lib_eval_defs parseMTR_def mtrLoop.simps mtrBody_def
        tickDurationOf_def)

text \<open>
  Claim C3 on the code. The \<open>parseMTR\<close> of \<^verbatim>\<open>src/lib/mmf-parser.ts\<close> reads no
  sub-header: under its comment \<open>Skip to MIDI-like data\<close> the event loop starts at the
  first byte of the chunk. On \<open>short_file\<close>, whose chunk cannot hold five fields,
  \<open>parse\<close> returns a note; on \<open>subheader_file\<close> it takes the first three bytes of
  the sub-header as a note-on. The \<open>parseMTR\<close> of part_001 returns no note on either
  chunk (and reads the sub-header of every chunk, by \<open>parseMTR_subheader\<close>).
\<close>

theorem parse_lib_reads_no_subheader:
  "parse_lib 65536 None short_file
     = Inr \<lparr>metadata = emptyMetadata,
            note_list =
              [\<lparr>time = 0, note_no = 60, duration = 250, velocity = 100, channel = 0\<rparr>],
            total_duration = 250, tempo = 120\<rparr>
   \<and> fst (parseMTR short_file 16 \<lparr>chunk_type = js ''OPDA'', chunk_size = 4, chunk_offset = 16\<rparr>)
     = ([], None)
   \<and> parse_lib 65536 None subheader_file
     = Inr \<lparr>metadata = emptyMetadata,
            note_list =
              [\<lparr>time = 0, note_no = 60, duration = 250, velocity = 100, channel = 0\<rparr>],
            total_duration = 250, tempo = 120\<rparr>
   \<and> fst (parseMTR subheader_file 16
          \<lparr>chunk_type = js ''OPDA'', chunk_size = 8, chunk_offset = 16\<rparr>)
     = ([], None)"
  by (simp add: short_file_def subheader_file_def parse_lib_eval_defs parseMTR_def
        mtrLoop.simps mtrBody_def tickDurationOf_def)

section \<open>The notifications of the player\<close>

lemma stateChanges_append [simp]:
  "stateChanges (xs @ ys) = stateChanges xs @ stateChanges ys"
  by (induction xs rule: stateChanges.induct) auto

text \<open>
  The invariant of the player: no two state notifications in a row carry the same
  state, and the last one, if there is one, carried the present state.
\<close>

definition notified :: "MMFPlayer \<Rightarrow> bool" where
  "notified s \<longleftrightarrow>
     distinct_adj (stateChanges (notifications s))
     \<and> (stateChanges (notifications s) = [] \<or> last (stateChanges (notifications s)) = state s)"

lemma notified_cong:
  "state s' = state s \<Longrightarrow> stateChanges (notifications s') = stateChanges (notifications s) \<Longrightarrow>
     notified s' = notified s"
  by (simp add: notified_def)

lemma notified_setState: "notified s \<Longrightarrow> notified (setState n s)"
  by (auto simp: notified_def setState_def distinct_adj_append_iff)

lemma scheduleLoop_same:
  "state (scheduleLoop f now ns s) = state s
   \<and> notifications (scheduleLoop f now ns s) = notifications s"
  by (induction ns arbitrary: s) (auto simp: playNote_def Let_def)

lemma scheduleNotes_same:
  "state (scheduleNotes f now s) = state s
   \<and> notifications (scheduleNotes f now s) = notifications s"
  by (simp add: scheduleNotes_def scheduleLoop_same split: option.splits)

lemma notified_scheduleNotes [simp]: "notified (scheduleNotes f now s) = notified s"
  by (rule notified_cong) (simp_all add: scheduleNotes_same)

lemma notified_clear [simp]: "notified (clearScheduledNotes s) = notified s"
  by (rule notified_cong) (simp_all add: clearScheduledNotes_def)

lemma notified_tracking [simp]: "notified (startProgressTracking s) = notified s"
  by (rule notified_cong) (simp_all add: startProgressTracking_def)

lemma notified_stop: "notified s \<Longrightarrow> notified (stop s)"
proof -
  assume a: "notified s"
  have "notified (clearScheduledNotes (setState Stopped s))"
    using notified_setState [OF a] by simp
  moreover have "notified (clearScheduledNotes (setState Stopped s)
      \<lparr>startTime := 0, pauseTime := 0, timers := t\<rparr>)
    = notified (clearScheduledNotes (setState Stopped s))" for t
    by (rule notified_cong) simp_all
  ultimately show ?thesis using a by (simp add: stop_def Let_def)
qed

lemma notified_resume: "notified s \<Longrightarrow> notified (resume now s)"
proof -
  assume a: "notified s"
  have "notified (setState Playing s\<lparr>startTime := t\<rparr>) = notified (setState Playing s)" for t
    by (rule notified_cong) simp_all
  then show ?thesis
    using a notified_setState [OF a, of Playing] by (simp add: resume_def Let_def)
qed

lemma notified_audioContext [simp]: "notified (s\<lparr>audioContext := b\<rparr>) = notified s"
  by (rule notified_cong) simp_all

lemma notified_play: "notified s \<Longrightarrow> play now s = Inr s' \<Longrightarrow> notified s'"
proof -
  assume a: "notified s" and p: "play now s = Inr s'"
  let ?s0 = "s\<lparr>audioContext := True\<rparr>"
  let ?s1 = "if state ?s0 = Playing then stop ?s0 else ?s0"
  have 0: "notified ?s0" using a by simp
  have 1: "notified ?s1" using 0 notified_stop by simp
  have 2: "notified (setState Playing ?s1)" using 1 by (rule notified_setState)
  have 3: "notified (setState Playing ?s1\<lparr>startTime := now\<rparr>)"
    using 2 notified_cong [of "setState Playing ?s1\<lparr>startTime := now\<rparr>" "setState Playing ?s1"]
    by simp
  let ?s5 = "startProgressTracking (scheduleNotes 0 now (setState Playing ?s1\<lparr>startTime := now\<rparr>))"
  have 5: "notified ?s5" using 3 by simp
  have 6: "notified (?s5\<lparr>timers := t\<rparr>)" for t
    using 5 notified_cong [of "?s5\<lparr>timers := t\<rparr>" ?s5] by simp
  show ?thesis
    using p 5 6 notified_resume [OF 0, of now]
    by (auto simp: play_def Let_def split: option.splits if_splits)
qed

lemma notified_pause: "notified s \<Longrightarrow> notified (pause now s)"
proof -
  assume a: "notified s"
  have "notified (setState Paused s\<lparr>pauseTime := t\<rparr>) = notified (setState Paused s)" for t
    by (rule notified_cong) simp_all
  then show ?thesis
    using a notified_setState [OF a, of Paused] by (simp add: pause_def Let_def)
qed

lemma notified_load: "notified s \<Longrightarrow> notified (load d s)"
proof -
  assume a: "notified s"
  have "notified (s\<lparr>mmfData := Some d\<rparr>) = notified s" by (rule notified_cong) simp_all
  then show ?thesis using a notified_stop by (simp add: load_def)
qed

lemma notified_dispose: "notified s \<Longrightarrow> notified (dispose s)"
proof -
  assume a: "notified s"
  have "notified (stop s\<lparr>audioContext := False, mmfData := None\<rparr>) = notified (stop s)"
    by (rule notified_cong) simp_all
  then show ?thesis using notified_stop [OF a] by (simp add: dispose_def Let_def)
qed

lemma notified_endCallback: "notified s \<Longrightarrow> notified (endCallback s)"
proof -
  assume a: "notified s"
  have "notified (stop s\<lparr>notifications := notifications (stop s) @ [End]\<rparr>) = notified (stop s)"
    by (rule notified_cong) simp_all
  then show ?thesis using a notified_stop [OF a] by (simp add: endCallback_def Let_def)
qed

lemma notified_idleCallback: "notified s \<Longrightarrow> notified (idleCallback s)"
  by (simp add: idleCallback_def notified_setState)

lemma notified_fireTimer: "notified s \<Longrightarrow> notified (fireTimer i s)"
proof -
  assume a: "notified s"
  have "notified (s\<lparr>timers := t\<rparr>)" for t
    using a notified_cong [of "s\<lparr>timers := t\<rparr>" s] by simp
  then show ?thesis
    using a by (simp add: fireTimer_def Let_def notified_endCallback notified_idleCallback
        split: timer.splits)
qed

lemma notified_updateProgress: "notified s \<Longrightarrow> notified (updateProgress now s)"
proof -
  assume a: "notified s"
  have 1: "notified (s\<lparr>notifications := notifications s @ [Progress p]\<rparr>)" for p
    using a notified_cong [of "s\<lparr>notifications := notifications s @ [Progress p]\<rparr>" s] by simp
  have 2: "notified (s\<lparr>notifications := notifications s @ [Progress p], frames := f\<rparr>)" for p f
    using 1 [of p] notified_cong [of "s\<lparr>notifications := notifications s @ [Progress p], frames := f\<rparr>"
        "s\<lparr>notifications := notifications s @ [Progress p]\<rparr>"] by simp
  show ?thesis
    using a 1 2 by (simp add: updateProgress_def Let_def split: option.splits)
qed

lemma notified_step: "notified s \<Longrightarrow> notified (step ev s)"
proof (cases ev)
  case (Play now)
  assume "notified s"
  then show ?thesis using Play notified_play [of s now] by (simp split: sum.splits)
next
  case (Frame now)
  assume a: "notified s"
  have "notified (s\<lparr>frames := f\<rparr>)" for f
    using a notified_cong [of "s\<lparr>frames := f\<rparr>" s] by simp
  then show ?thesis using a Frame notified_updateProgress by simp
next
  case (NoteEnded h)
  assume a: "notified s"
  have "notified (onended h s) = notified s"
    by (rule notified_cong) (simp_all add: onended_def)
  then show ?thesis using a NoteEnded by simp
qed (simp_all add: notified_load notified_pause notified_stop notified_dispose notified_fireTimer)

lemma notified_run: "notified s \<Longrightarrow> notified (run evs s)"
  unfolding run_def by (induction evs arbitrary: s) (simp_all add: notified_step)

text \<open>
  Claim C9. \<open>setState\<close> raises the notification only when the new state differs from
  the present one; and after any sequence of events (method calls, timers, animation
  frames, ends of tones) on a new player, no two consecutive \<open>onStateChange\<close>
  notifications carry the same state. The field \<open>state\<close> is assigned in \<open>setState\<close>
  only.
\<close>

theorem stateChanged_only_on_change:
  "notifications (setState newState s)
     = (if state s = newState then notifications s
        else notifications s @ [StateChange newState])
   \<and> distinct_adj (stateChanges (notifications (run evs newPlayer)))"
proof -
  have "notified newPlayer" by (simp add: notified_def newPlayer_def)
  then have "notified (run evs newPlayer)" by (rule notified_run)
  then show ?thesis by (simp add: notified_def setState_def)
qed


section \<open>Runs of the player on an example\<close>

text \<open>
  A document of one second with a note at 0 ms and a note at 750 ms, and the player
  that has loaded it and was started at clock reading 0.
\<close>

definition note0 :: MMFNote where
  "note0 = \<lparr>time = 0, note_no = 60, duration = 250, velocity = 100, channel = 0\<rparr>"

definition note750 :: MMFNote where
  "note750 = \<lparr>time = 750, note_no = 64, duration = 250, velocity = 100, channel = 0\<rparr>"

definition doc_example :: MMFData where
  "doc_example =
     \<lparr>metadata = emptyMetadata, note_list = [note0, note750], total_duration = 1000,
      tempo = 120\<rparr>"

definition playing_example :: MMFPlayer where
  "playing_example =
     \<lparr>audioContext = True, mmfData = Some doc_example, state = Playing, startTime = 0,
      pauseTime = 0, scheduledNotes = [0, 1], nextOscillator = 2,
      audioLog = [Schedule 0 note0 0 (1 / 4), Schedule 1 note750 (3 / 4) 1],
      notifications = [StateChange Playing], timers = [EndTimer 1000], frames = 1\<rparr>"

lemmas player_defs = run_def load_def play_def pause_def resume_def stop_def setState_def
  clearScheduledNotes_def scheduleNotes_def playNote_def startProgressTracking_def
  fireTimer_def endCallback_def idleCallback_def newPlayer_def Let_def

lemmas example_defs = doc_example_def note0_def note750_def playing_example_def

lemma playing_example_reached: "run [Load doc_example, Play 0] newPlayer = playing_example"
  by (simp add: player_defs example_defs)

theorem stateChanged_only_on_change_witness:
  "distinct_adj (stateChanges (notifications
     (run [Load doc_example, Play 0, Play 1, Pause 2, Play 3, Timeout 0, Stop, Timeout 0]
        newPlayer)))"
  using stateChanged_only_on_change
    [of Idle newPlayer
      "[Load doc_example, Play 0, Play 1, Pause 2, Play 3, Timeout 0, Stop, Timeout 0]"]
  by (rule conjunct2)

section \<open>\<open>play\<close> while playing\<close>

text \<open>
  Claim C1 as stated does not hold: in the state \<open>Playing\<close>, \<open>play\<close> runs
  \<open>this.stop()\<close> (``Stop any existing playback'') and then starts again. On the
  example, a \<open>play\<close> at clock reading 1 cancels the two tones in flight, submits two
  new ones from the new origin 1, and raises the notifications \<open>Stopped\<close> and
  \<open>Playing\<close>: the player is not what it was.
\<close>

theorem play_while_playing_restarts_example:
  "state playing_example = Playing
   \<and> run [Load doc_example, Play 0] newPlayer = playing_example
   \<and> play 1 playing_example
     = Inr \<lparr>audioContext = True, mmfData = Some doc_example, state = Playing, startTime = 1,
            pauseTime = 0, scheduledNotes = [2, 3], nextOscillator = 4,
            audioLog = [Schedule 0 note0 0 (1 / 4), Schedule 1 note750 (3 / 4) 1,
                        Cancel 0, Cancel 1,
                        Schedule 2 note0 1 (5 / 4), Schedule 3 note750 (7 / 4) 2],
            notifications = [StateChange Playing, StateChange Stopped, StateChange Playing],
            timers = [EndTimer 1000, IdleTimer, EndTimer 1000], frames = 2\<rparr>
   \<and> play 1 playing_example \<noteq> Inr playing_example"
  by (simp add: player_defs example_defs)

text \<open>
  The tone requests of \<open>scheduleNotes(fromTime)\<close> at clock reading \<open>now\<close>, when the
  next oscillator is number \<open>h\<close>: one for each note that does not start before
  \<open>fromTime\<close>, in the order of the document.
\<close>

fun toneRequests :: "rat \<Rightarrow> rat \<Rightarrow> nat \<Rightarrow> MMFNote list \<Rightarrow> audio_cmd list" where
  "toneRequests fromTime now h [] = []"
| "toneRequests fromTime now h (n # ns) =
     (if time n < fromTime then toneRequests fromTime now h ns
      else Schedule h n (now + (time n - fromTime) / 1000)
             (now + (time n - fromTime) / 1000 + duration n / 1000)
           # toneRequests fromTime now (Suc h) ns)"

lemma scheduleLoop_effect:
  assumes "audioContext s"
  shows "scheduleLoop f now ns s =
     s\<lparr>audioLog := audioLog s @ toneRequests f now (nextOscillator s) ns,
       scheduledNotes := scheduledNotes s
         @ [nextOscillator s ..< nextOscillator s + length (toneRequests f now (nextOscillator s) ns)],
       nextOscillator := nextOscillator s + length (toneRequests f now (nextOscillator s) ns)\<rparr>"
  using assms
proof (induction ns arbitrary: s)
  case Nil
  then show ?case by simp
next
  case (Cons n ns)
  show ?case
  proof (cases "time n < f")
    case True
    then show ?thesis using Cons by simp
  next
    case False
    let ?a = "now + (time n - f) / 1000"
    let ?s = "playNote n ?a (?a + duration n / 1000) s"
    have ac: "audioContext ?s" using Cons.prems by (simp add: playNote_def)
    have "scheduleLoop f now (n # ns) s = scheduleLoop f now ns ?s"
      using False by (simp add: Let_def)
    also note Cons.IH [OF ac]
    finally show ?thesis
      using False Cons.prems
      by (simp add: playNote_def upt_conv_Cons [of "nextOscillator s"] del: upt_Suc)
  qed
qed

text \<open>
  Claim C1, amended. In the state \<open>Playing\<close> with a document loaded, \<open>play\<close> restarts
  the playback: it does what \<open>stop\<close> followed by \<open>play\<close> does. It succeeds and ends in
  the state \<open>Playing\<close> with the origin at the present clock reading; it raises the
  notifications \<open>Stopped\<close> and \<open>Playing\<close>; it cancels every tone that was in flight
  and submits one tone for each note of the document (that does not start before 0),
  and exactly these new tones are in flight afterwards. So no tone stays scheduled
  twice.
\<close>

theorem play_while_playing_restarts:
  assumes "state s = Playing" and "mmfData s = Some d"
  shows "play now s = play now (stop s)
       \<and> (\<exists>s'. play now s = Inr s'
            \<and> state s' = Playing \<and> startTime s' = now
            \<and> notifications s' = notifications s @ [StateChange Stopped, StateChange Playing]
            \<and> audioLog s' = audioLog s @ map Cancel (scheduledNotes s)
                 @ toneRequests 0 now (nextOscillator s) (note_list d)
            \<and> scheduledNotes s'
                = [nextOscillator s ..<
                   nextOscillator s + length (toneRequests 0 now (nextOscillator s) (note_list d))])"
proof -
  let ?s1 = "stop (s\<lparr>audioContext := True\<rparr>)"
  let ?s3 = "setState Playing ?s1\<lparr>startTime := now\<rparr>"
  have commute: "stop (s\<lparr>audioContext := True\<rparr>) = (stop s)\<lparr>audioContext := True\<rparr>"
    by (rule MMFPlayer.equality)
       (simp_all add: stop_def setState_def clearScheduledNotes_def Let_def)
  have stopped: "state (stop s) = Stopped" "mmfData (stop s) = Some d"
    using assms by (simp_all add: stop_def setState_def clearScheduledNotes_def Let_def)
  have same: "play now s = play now (stop s)"
    using assms stopped by (simp add: play_def commute Let_def)
  have s3: "audioContext ?s3" "mmfData ?s3 = Some d" "state ?s3 = Playing"
    "notifications ?s3 = notifications s @ [StateChange Stopped, StateChange Playing]"
    "audioLog ?s3 = audioLog s @ map Cancel (scheduledNotes s)"
    "scheduledNotes ?s3 = []" "nextOscillator ?s3 = nextOscillator s" "startTime ?s3 = now"
    using assms by (simp_all add: stop_def setState_def clearScheduledNotes_def Let_def)
  let ?s4 = "scheduleNotes 0 now ?s3"
  have s4: "?s4 = ?s3\<lparr>audioLog := audioLog ?s3 @ toneRequests 0 now (nextOscillator ?s3) (note_list d),
       scheduledNotes := scheduledNotes ?s3
         @ [nextOscillator ?s3 ..< nextOscillator ?s3 + length (toneRequests 0 now (nextOscillator ?s3) (note_list d))],
       nextOscillator := nextOscillator ?s3 + length (toneRequests 0 now (nextOscillator ?s3) (note_list d))\<rparr>"
    using scheduleLoop_effect [OF s3(1), of 0 now "note_list d"] s3(1,2)
    by (simp add: scheduleNotes_def)
  have p: "play now s = Inr (if total_duration d > 0
      then (startProgressTracking ?s4)\<lparr>timers := timers (startProgressTracking ?s4) @ [EndTimer (total_duration d)]\<rparr>
      else startProgressTracking ?s4)"
    using assms by (simp add: play_def Let_def)
  have "\<exists>s'. play now s = Inr s'
            \<and> state s' = Playing \<and> startTime s' = now
            \<and> notifications s' = notifications s @ [StateChange Stopped, StateChange Playing]
            \<and> audioLog s' = audioLog s @ map Cancel (scheduledNotes s)
                 @ toneRequests 0 now (nextOscillator s) (note_list d)
            \<and> scheduledNotes s'
                = [nextOscillator s ..<
                   nextOscillator s + length (toneRequests 0 now (nextOscillator s) (note_list d))]"
    using p s3
    by (cases "total_duration d > 0") (simp_all add: s4 startProgressTracking_def)
  with same show ?thesis by (rule conjI)
qed

theorem play_while_playing_restarts_witness:
  "play 1 playing_example = play 1 (stop playing_example)
   \<and> (\<exists>s'. play 1 playing_example = Inr s'
        \<and> state s' = Playing \<and> startTime s' = 1
        \<and> notifications s'
            = notifications playing_example @ [StateChange Stopped, StateChange Playing]
        \<and> audioLog s' = audioLog playing_example @ map Cancel (scheduledNotes playing_example)
             @ toneRequests 0 1 (nextOscillator playing_example) (note_list doc_example)
        \<and> scheduledNotes s'
            = [nextOscillator playing_example ..<
               nextOscillator playing_example
               + length (toneRequests 0 1 (nextOscillator playing_example)
                   (note_list doc_example))])"
  by (rule play_while_playing_restarts) (simp_all add: playing_example_def)

section \<open>The end-of-playback callback\<close>

text \<open>
  In any state but \<open>Playing\<close> the callback does nothing: this is the part of the
  requirement that the test of the state does meet.
\<close>

lemma endCallback_not_playing: "state s \<noteq> Playing \<Longrightarrow> endCallback s = s"
  by (simp add: endCallback_def)

text \<open>
  Claim C4 on the code. The callback that \<open>play\<close> hands to \<open>setTimeout\<close> tests
  \<open>this.state === 'playing'\<close> and nothing else; it cannot tell the playback that armed
  it from a later one. On the example: \<open>play\<close> at clock reading 0 arms the callback
  for 1000 ms; \<open>pause\<close> at 0.1 s and \<open>play\<close> (which resumes) at 0.2 s start a new
  span of playing, in which the last note is due from 0.85 s to 1.1 s. When the timer
  of the first \<open>play\<close> fires, the state is \<open>Playing\<close>: the callback stops the
  playback, cancels the tone in flight and raises the end-of-playback notification.
\<close>

theorem stale_end_callback_stops_playback:
  "run [Load doc_example, Play 0, Pause (1 / 10), Play (1 / 5)] newPlayer
     = \<lparr>audioContext = True, mmfData = Some doc_example, state = Playing,
        startTime = 1 / 10, pauseTime = 1 / 10, scheduledNotes = [2], nextOscillator = 3,
        audioLog = [Schedule 0 note0 0 (1 / 4), Schedule 1 note750 (3 / 4) 1,
                    Cancel 0, Cancel 1, Schedule 2 note750 (17 / 20) (11 / 10)],
        notifications = [StateChange Playing, StateChange Paused, StateChange Playing],
        timers = [EndTimer 1000], frames = 2\<rparr>
   \<and> run [Load doc_example, Play 0, Pause (1 / 10), Play (1 / 5), Timeout 0] newPlayer
     = \<lparr>audioContext = True, mmfData = Some doc_example, state = Stopped,
        startTime = 0, pauseTime = 0, scheduledNotes = [], nextOscillator = 3,
        audioLog = [Schedule 0 note0 0 (1 / 4), Schedule 1 note750 (3 / 4) 1,
                    Cancel 0, Cancel 1, Schedule 2 note750 (17 / 20) (11 / 10), Cancel 2],
        notifications = [StateChange Playing, StateChange Paused, StateChange Playing,
                         StateChange Stopped, End],
        timers = [IdleTimer], frames = 2\<rparr>"
  by (simp add: player_defs example_defs)




end
